theory Spec2Isabelle
  imports Complex_Main "HOL-Library.AList"
begin

section \<open>Python values and exceptions\<close>

text \<open>
  The controller of \<^verbatim>\<open>snakemake/workflow.py\<close> works on duck-typed directive values.
  A directive value is one of the shapes the checks of \<^verbatim>\<open>Workflow.rule.decorate\<close>
  tell apart. A finite float is the rational it denotes; \<^verbatim>\<open>inf\<close> and \<^verbatim>\<open>nan\<close> are
  kept apart because \<^verbatim>\<open>int()\<close> raises on them.
\<close>

datatype pyfloat = Finite rat | Infinite bool | NaN

datatype pyval =
    PNone
  | PBool bool
  | PInt int
  | PFloat pyfloat
  | PStr string
  | PPath string
  | PFlagged string "string list"
  | PCallable nat
  | PObject nat
  | PTuple "pyval list"

text \<open>
  The exceptions raised in this file. The message of each \<^verbatim>\<open>raise\<close> is named by a
  constructor instead of being carried as text.
\<close>

datatype workflow_reason =
    CoresUndefined
  | InvalidEnvvars "string list"
  | UndefinedEnvvars "string list"
  | ConfigfileMissing
  | MultipleOutputCache
  | InvalidCacheValue
  | BenchmarkWithCache
  | InvalidDefaultTarget
  | ModuleNotRegistered
  | UseRuleMultiple

datatype rule_reason =
    ThreadsType
  | ShadowValue
  | ResourcesPositional
  | ResourcesType
  | PriorityType
  | RetriesValue
  | EnvmodulesNotAllowed
  | CondaNotAllowed
  | ContainerNotAllowed

datatype error =
    WorkflowError workflow_reason
  | RuleException rule_reason
  | CreateRuleException string
  | UnknownRuleException string
  | NoRulesException
  | KeyError string
  | IndexError
  | AssertionError
  | OverflowError
  | ValueError
  | TypeError
  | AttributeError
  | IOError
  | External string

text \<open>Truth value of a Python object, as \<^verbatim>\<open>if x:\<close> tests it.\<close>

fun truthy :: "pyval \<Rightarrow> bool" where
  "truthy PNone = False"
| "truthy (PBool b) = b"
| "truthy (PInt i) = (i \<noteq> 0)"
| "truthy (PFloat (Finite q)) = (q \<noteq> 0)"
| "truthy (PFloat _) = True"
| "truthy (PStr s) = (s \<noteq> [])"
| "truthy (PPath s) = True"
| "truthy (PFlagged s fl) = (s \<noteq> [])"
| "truthy (PCallable f) = True"
| "truthy (PObject a) = True"
| "truthy (PTuple xs) = (xs \<noteq> [])"

text \<open>\<^verbatim>\<open>a or b\<close> returns \<^verbatim>\<open>a\<close> when it is true and \<^verbatim>\<open>b\<close> otherwise.\<close>

definition py_or :: "pyval \<Rightarrow> pyval \<Rightarrow> pyval" where
  "py_or a b = (if truthy a then a else b)"

text \<open>\<^verbatim>\<open>isinstance(v, int)\<close>: \<^verbatim>\<open>bool\<close> is a subclass of \<^verbatim>\<open>int\<close>.\<close>

fun is_int :: "pyval \<Rightarrow> bool" where
  "is_int (PInt i) = True"
| "is_int (PBool b) = True"
| "is_int _ = False"

fun is_float :: "pyval \<Rightarrow> bool" where
  "is_float (PFloat f) = True"
| "is_float _ = False"

text \<open>\<^verbatim>\<open>isinstance(v, str)\<close>: a flagged path is an annotated \<^verbatim>\<open>str\<close>.\<close>

fun is_str :: "pyval \<Rightarrow> bool" where
  "is_str (PStr s) = True"
| "is_str (PFlagged s fl) = True"
| "is_str _ = False"

fun callable :: "pyval \<Rightarrow> bool" where
  "callable (PCallable f) = True"
| "callable _ = False"

text \<open>\<^verbatim>\<open>x is True\<close>, \<^verbatim>\<open>x is False\<close>: identity with the two singletons.\<close>

definition is_True :: "pyval \<Rightarrow> bool" where
  "is_True v = (v = PBool True)"

definition is_False :: "pyval \<Rightarrow> bool" where
  "is_False v = (v = PBool False)"

text \<open>The integer value of an \<^verbatim>\<open>int\<close> or \<^verbatim>\<open>bool\<close>.\<close>

fun int_value :: "pyval \<Rightarrow> int" where
  "int_value (PInt i) = i"
| "int_value (PBool b) = (if b then 1 else 0)"
| "int_value _ = 0"

text \<open>\<^verbatim>\<open>int(f)\<close> for a float: truncation toward zero; it raises on \<^verbatim>\<open>inf\<close> and \<^verbatim>\<open>nan\<close>.\<close>

definition trunc :: "rat \<Rightarrow> int" where
  "trunc q = (if 0 \<le> q then \<lfloor>q\<rfloor> else - \<lfloor>- q\<rfloor>)"

fun int_of_float :: "pyfloat \<Rightarrow> error + int" where
  "int_of_float (Finite q) = Inr (trunc q)"
| "int_of_float (Infinite s) = Inl OverflowError"
| "int_of_float NaN = Inl ValueError"

text \<open>\<^verbatim>\<open>str(n)\<close> for a natural number: its decimal digits.\<close>

definition digit_char :: "nat \<Rightarrow> char" where
  "digit_char d = ''0123456789'' ! d"

fun str_nat :: "nat \<Rightarrow> string" where
  "str_nat n = (if n < 10 then [digit_char n] else str_nat (n div 10) @ [digit_char (n mod 10)])"

declare str_nat.simps [simp del]

text \<open>Sequencing of fallible steps: the first exception ends the computation.\<close>

definition and_then :: "error + 'a \<Rightarrow> ('a \<Rightarrow> error + 'b) \<Rightarrow> error + 'b" where
  "and_then m f = (case m of Inl e \<Rightarrow> Inl e | Inr x \<Rightarrow> f x)"

section \<open>Directive accumulator, Rule, modifier and controller state\<close>

text \<open>
  \<^verbatim>\<open>InOutput\<close> and \<^verbatim>\<open>RuleInfo\<close> (module \<^verbatim>\<open>snakemake.ruleinfo\<close>) are the staging
  structures filled by the directive decorators of \<^verbatim>\<open>Workflow\<close>
  (\<^verbatim>\<open>input\<close>, \<^verbatim>\<open>output\<close>, \<^verbatim>\<open>threads\<close>, \<^verbatim>\<open>cache_rule\<close>, ...). Each field holds what the
  decorator stores; an absent directive is \<^verbatim>\<open>None\<close>.
\<close>

record inoutput =
  paths :: pyval
  kwpaths :: "(string \<times> pyval) list"
  path_modifier :: nat

type_synonym arguments = "pyval list \<times> (string \<times> pyval) list"

record ruleinfo =
  ri_func :: pyval
  ri_shellcmd :: pyval
  ri_name :: "string option"
  ri_norun :: bool
  ri_input :: "inoutput option"
  ri_output :: "inoutput option"
  ri_params :: "arguments option"
  ri_message :: pyval
  ri_benchmark :: "inoutput option"
  ri_conda_env :: pyval
  ri_container_img :: pyval
  ri_is_containerized :: bool
  ri_env_modules :: "pyval list option"
  ri_wildcard_constraints :: "arguments option"
  ri_threads :: pyval
  ri_shadow_depth :: pyval
  ri_resources :: "arguments option"
  ri_priority :: pyval
  ri_retries :: pyval
  ri_version :: pyval
  ri_log :: "inoutput option"
  ri_docstring :: pyval
  ri_group :: pyval
  ri_script :: pyval
  ri_notebook :: pyval
  ri_wrapper :: pyval
  ri_template_engine :: pyval
  ri_cwl :: pyval
  ri_cache :: pyval
  ri_handover :: pyval
  ri_default_target :: pyval
  ri_localrule :: pyval

text \<open>\<^verbatim>\<open>RuleInfo(func)\<close>: the accumulator \<^verbatim>\<open>Workflow.run\<close> starts a rule with.\<close>

definition new_RuleInfo :: "pyval \<Rightarrow> ruleinfo" where
  "new_RuleInfo f =
     \<lparr> ri_func = f, ri_shellcmd = PNone, ri_name = None, ri_norun = False,
       ri_input = None, ri_output = None, ri_params = None, ri_message = PNone,
       ri_benchmark = None, ri_conda_env = PNone, ri_container_img = PNone,
       ri_is_containerized = False, ri_env_modules = None,
       ri_wildcard_constraints = None, ri_threads = PNone, ri_shadow_depth = PNone,
       ri_resources = None, ri_priority = PNone, ri_retries = PNone, ri_version = PNone,
       ri_log = None, ri_docstring = PNone, ri_group = PNone, ri_script = PNone,
       ri_notebook = PNone, ri_wrapper = PNone, ri_template_engine = PNone,
       ri_cwl = PNone, ri_cache = PBool False, ri_handover = PBool False,
       ri_default_target = PBool False, ri_localrule = PBool False \<rparr>"

text \<open>An output file of a rule, with the flag \<^verbatim>\<open>multiext()\<close> puts on it.\<close>

record iofile =
  io_file :: string
  is_multiext :: bool

text \<open>
  The attributes of a \<^verbatim>\<open>Rule\<close> (module \<^verbatim>\<open>snakemake.rules\<close>) that this file assigns.
\<close>

record Rule =
  r_name :: string
  r_lineno :: pyval
  r_snakefile :: pyval
  r_is_checkpoint :: bool
  r_wildcard_constraints :: "(string \<times> pyval) list"
  r_input :: "iofile list"
  r_output :: "iofile list"
  r_params :: "arguments"
  r_resources :: "(string \<times> pyval) list"
  r_shadow_depth :: pyval
  r_priority :: pyval
  r_restart_times :: pyval
  r_version :: pyval
  r_log :: "iofile list"
  r_message :: pyval
  r_benchmark :: pyval
  r_group :: pyval
  r_conda_env :: pyval
  r_env_modules :: "pyval list option"
  r_container_img :: pyval
  r_is_containerized :: bool
  r_norun :: bool
  r_docstring :: pyval
  r_run_func :: pyval
  r_shellcmd :: pyval
  r_script :: pyval
  r_notebook :: pyval
  r_wrapper :: pyval
  r_template_engine :: pyval
  r_cwl :: pyval
  r_basedir :: string
  r_is_handover :: bool
  r_ruleinfo :: "ruleinfo option"

text \<open>
  Modelled from the spec: the constructor \<^verbatim>\<open>Rule(name, workflow, lineno, snakefile)\<close>
  of \<^verbatim>\<open>snakemake.rules\<close> is not part of this file. A Rule is "created empty when first
  referenced by name": every attribute other than the constructor's arguments has its
  empty value, priority being 0.
\<close>

definition new_Rule :: "string \<Rightarrow> pyval \<Rightarrow> pyval \<Rightarrow> Rule" where
  "new_Rule name lineno snakefile =
     \<lparr> r_name = name, r_lineno = lineno, r_snakefile = snakefile, r_is_checkpoint = False,
       r_wildcard_constraints = [], r_input = [], r_output = [], r_params = ([], []),
       r_resources = [], r_shadow_depth = PNone, r_priority = PInt 0,
       r_restart_times = PNone, r_version = PNone, r_log = [], r_message = PNone,
       r_benchmark = PNone, r_group = PNone, r_conda_env = PNone, r_env_modules = None,
       r_container_img = PNone, r_is_containerized = False, r_norun = False,
       r_docstring = PNone, r_run_func = PNone, r_shellcmd = PNone, r_script = PNone,
       r_notebook = PNone, r_wrapper = PNone, r_template_engine = PNone, r_cwl = PNone,
       r_basedir = [], r_is_handover = False, r_ruleinfo = None \<rparr>"

text \<open>
  The attributes of the active \<^verbatim>\<open>WorkflowModifier\<close> (module \<^verbatim>\<open>snakemake.modules\<close>)
  that registration consults. The class is not part of this file, so its methods
  \<^verbatim>\<open>skip_rule\<close> and \<^verbatim>\<open>modify_rulename\<close> are fields.
\<close>

record modifier =
  skip_rule :: "string option \<Rightarrow> bool"
  modify_rulename :: "string \<Rightarrow> string"
  allow_rule_overwrite :: bool
  ruleinfo_overwrite :: "ruleinfo option"

text \<open>The modifier \<^verbatim>\<open>WorkflowModifier(self, globals=_globals)\<close> the controller starts with.\<close>

definition base_modifier :: modifier where
  "base_modifier =
     \<lparr> skip_rule = (\<lambda>n. False), modify_rulename = (\<lambda>n. n),
       allow_rule_overwrite = False, ruleinfo_overwrite = None \<rparr>"

text \<open>What \<^verbatim>\<open>logger\<close> is asked to print.\<close>

datatype log_entry =
    Warning string
  | Info string
  | Error string
  | Debug string

text \<open>\<^verbatim>\<open>snakemake.common.Mode\<close> and the attributes of a \<^verbatim>\<open>Subworkflow\<close>.\<close>

datatype mode = Default | Subprocess | Cluster

record subworkflow =
  sw_name :: string
  sw_snakefile :: string
  sw_workdir :: string
  sw_configfile :: "string option"

text \<open>
  The state of \<^verbatim>\<open>Workflow\<close>. \<^verbatim>\<open>_rules\<close> is an \<^verbatim>\<open>OrderedDict\<close>: an association list
  with distinct keys in insertion order. \<^verbatim>\<open>logged\<close> collects the calls to \<^verbatim>\<open>logger\<close>,
  the newest last. \<^verbatim>\<open>rule_proxies\<close> and \<^verbatim>\<open>checkpoints\<close> are the attributes of the objects
  bound to \<^verbatim>\<open>rules\<close> and \<^verbatim>\<open>checkpoints\<close> in the definition namespace \<^verbatim>\<open>globals\<close>.
\<close>

record workflow =
  rules :: "(string \<times> Rule) list"
  rule_count :: nat
  default_target :: "string option"
  localrules :: "string set"
  modifier_rules :: "string list"
  cache_rules :: "string \<rightharpoonup> pyval"
  enable_cache :: bool
  envvars :: "string set"
  check_envvars :: bool
  default_resources :: "(string \<times> pyval) list option"
  global_resources :: "(string \<times> pyval) list"
  overwrite_threads :: "string \<rightharpoonup> pyval"
  overwrite_resources :: "string \<rightharpoonup> (string \<times> pyval) list"
  overwrite_groups :: "string \<rightharpoonup> pyval"
  run_local :: bool
  restart_times :: pyval
  wrapper_prefix :: pyval
  global_container_img :: pyval
  global_is_containerized :: bool
  included_stack :: "string list"
  globals :: "string \<rightharpoonup> pyval"
  rule_proxies :: "string \<rightharpoonup> string"
  checkpoints :: "string \<rightharpoonup> string"
  logged :: "log_entry list"
  modules :: "string set"
  subworkflows :: "(string \<times> subworkflow) list"
  execute_subworkflows :: bool
  immediate_submit :: bool
  use_conda :: bool
  use_singularity :: bool
  assume_shared_fs :: bool
  mode :: mode

section \<open>The rule registry\<close>

text \<open>\<^verbatim>\<open>Workflow.is_rule\<close>: \<^verbatim>\<open>name in self._rules\<close>.\<close>

definition is_rule :: "workflow \<Rightarrow> string \<Rightarrow> bool" where
  "is_rule w name = (name \<in> fst ` set (rules w))"

text \<open>
  \<^verbatim>\<open>Workflow.add_rule\<close>. The exception is raised before anything is assigned, so the
  state it leaves is the state it was called in. Assigning to an existing key of an
  \<^verbatim>\<open>OrderedDict\<close> keeps the key's position. An unset default target is \<^verbatim>\<open>None\<close> or the
  empty name.
\<close>

definition add_rule ::
  "modifier \<Rightarrow> workflow \<Rightarrow> string \<Rightarrow> pyval \<Rightarrow> pyval \<Rightarrow> bool \<Rightarrow> bool \<Rightarrow> workflow \<times> (error + string)" where
  "add_rule m w name lineno snakefile checkpoint allow_overwrite =
     (let is_overwrite = is_rule w name in
      if \<not> allow_overwrite \<and> is_overwrite then (w, Inl (CreateRuleException name))
      else
        let rule = new_Rule name lineno snakefile;
            w1 = w\<lparr>rules := AList.update (r_name rule) rule (rules w)\<rparr>;
            w2 = w1\<lparr>modifier_rules := modifier_rules w1 @ [r_name rule]\<rparr>;
            w3 = (if \<not> is_overwrite then w2\<lparr>rule_count := rule_count w2 + 1\<rparr> else w2);
            w4 = (if default_target w3 = None \<or> default_target w3 = Some []
                  then w3\<lparr>default_target := Some (r_name rule)\<rparr> else w3)
        in (w4, Inr name))"

text \<open>\<^verbatim>\<open>Workflow.get_rule\<close>.\<close>

definition get_rule :: "workflow \<Rightarrow> string \<Rightarrow> error + Rule" where
  "get_rule w name =
     (if rules w = [] then Inl NoRulesException
      else case map_of (rules w) name of
             None \<Rightarrow> Inl (UnknownRuleException name)
           | Some r \<Rightarrow> Inr r)"

text \<open>\<^verbatim>\<open>Workflow.get_cache_mode\<close>: \<^verbatim>\<open>self.cache_rules.get(rule.name)\<close>.\<close>

definition get_cache_mode :: "workflow \<Rightarrow> Rule \<Rightarrow> pyval" where
  "get_cache_mode w rule = (case cache_rules w (r_name rule) of None \<Rightarrow> PNone | Some v \<Rightarrow> v)"

section \<open>Environment variables\<close>

text \<open>
  \<^verbatim>\<open>re.match(r"^\w+$", envvar, flags=re.ASCII)\<close>: one or more of the characters
  \<^verbatim>\<open>[A-Za-z0-9_]\<close>; \<^verbatim>\<open>$\<close> also matches before a newline that ends the string.
\<close>

definition is_word_char :: "char \<Rightarrow> bool" where
  "is_word_char c =
     (let n = (of_char c :: nat)
      in (48 \<le> n \<and> n \<le> 57) \<or> (65 \<le> n \<and> n \<le> 90) \<or> n = 95 \<or> (97 \<le> n \<and> n \<le> 122))"

definition match_envvar :: "string \<Rightarrow> bool" where
  "match_envvar s =
     (let w = (if s \<noteq> [] \<and> last s = CHR 0x0A then butlast s else s)
      in w \<noteq> [] \<and> list_all is_word_char w)"

text \<open>
  \<^verbatim>\<open>Workflow.register_envvars\<close>; \<^verbatim>\<open>environ\<close> is the set of names defined in
  \<^verbatim>\<open>os.environ\<close>. Both exceptions are raised before \<^verbatim>\<open>self.envvars\<close> is updated.
\<close>

definition register_envvars :: "string set \<Rightarrow> workflow \<Rightarrow> string list \<Rightarrow> workflow \<times> (error + unit)" where
  "register_envvars environ w vars =
     (let invalid_envvars = filter (\<lambda>envvar. \<not> match_envvar envvar) vars in
      if invalid_envvars \<noteq> [] then (w, Inl (WorkflowError (InvalidEnvvars invalid_envvars)))
      else
        let undefined = filter (\<lambda>var. var \<notin> environ) vars in
        if check_envvars w \<and> undefined \<noteq> []
        then (w, Inl (WorkflowError (UndefinedEnvvars (remdups undefined))))
        else (w\<lparr>envvars := envvars w \<union> set vars\<rparr>, Inr ()))"

section \<open>Registering a rule\<close>

text \<open>
  \<^verbatim>\<open>Workflow.rule\<close> up to the point where it returns the closure \<^verbatim>\<open>decorate\<close>. The
  closure is either the one that ignores the rule (\<open>Skipped\<close>) or the one that finalizes
  the Rule registered under \<open>name\<close> (\<open>Registered name orig_name checkpoint\<close>).
\<close>

datatype handle = Skipped | Registered string string bool

definition set_is_checkpoint :: "bool \<Rightarrow> Rule \<Rightarrow> Rule" where
  "set_is_checkpoint checkpoint r = r\<lparr>r_is_checkpoint := checkpoint\<rparr>"

definition rule ::
  "modifier \<Rightarrow> workflow \<Rightarrow> string option \<Rightarrow> pyval \<Rightarrow> pyval \<Rightarrow> bool \<Rightarrow> workflow \<times> (error + handle)" where
  "rule m w name lineno snakefile checkpoint =
     (let name1 = (case name of None \<Rightarrow> str_nat (length (rules w) + 1) | Some n \<Rightarrow> n) in
      if skip_rule m (Some name1) then (w, Inr Skipped)
      else
        let orig_name = name1;
            name2 = modify_rulename m name1
        in case add_rule m w name2 lineno snakefile checkpoint (allow_rule_overwrite m) of
             (w1, Inl e) \<Rightarrow> (w1, Inl e)
           | (w1, Inr name3) \<Rightarrow>
               (case get_rule w1 name3 of
                  Inl e \<Rightarrow> (w1, Inl e)
                | Inr r \<Rightarrow>
                    (w1\<lparr>rules := AList.map_entry name3 (set_is_checkpoint checkpoint) (rules w1)\<rparr>,
                     Inr (Registered name3 orig_name checkpoint))))"

text \<open>
  A run of registrations, each in the state the previous one left, stopping at the first
  exception. It returns the name every registration was given (\<open>None\<close> for a skipped rule).
\<close>

fun handle_name :: "handle \<Rightarrow> string option" where
  "handle_name Skipped = None"
| "handle_name (Registered name orig_name checkpoint) = Some name"

fun register_all :: "modifier \<Rightarrow> workflow \<Rightarrow> string option list \<Rightarrow> error + (string option list \<times> workflow)" where
  "register_all m w [] = Inr ([], w)"
| "register_all m w (name # names) =
     (case rule m w name PNone PNone False of
        (w1, Inl e) \<Rightarrow> Inl e
      | (w1, Inr h) \<Rightarrow>
          (case register_all m w1 names of
             Inl e \<Rightarrow> Inl e
           | Inr (hs, w2) \<Rightarrow> Inr (handle_name h # hs, w2)))"

section \<open>Finalizing a rule\<close>

text \<open>
  The methods of \<^verbatim>\<open>RuleInfo\<close>, \<^verbatim>\<open>Rule\<close> and \<^verbatim>\<open>snakemake.wrapper\<close> that \<^verbatim>\<open>decorate\<close> calls are
  not part of this file. Each is a field here: it receives the directive and yields the
  attribute the method assigns, or the exception it raises. So are the three calls of
  \<^verbatim>\<open>userule\<close> that leave the file: \<^verbatim>\<open>copy.copy\<close> on a \<^verbatim>\<open>RuleInfo\<close>, the construction of
  the \<^verbatim>\<open>WorkflowModifier\<close> of a local \<^verbatim>\<open>use rule\<close> (from the active modifier, the rule names,
  the name modifier and the directives given at the use site) and \<^verbatim>\<open>ModuleInfo.use_rules\<close>.
\<close>

record collab =
  apply_modifier :: "modifier \<Rightarrow> ruleinfo \<Rightarrow> ruleinfo"
  set_wildcard_constraints :: "arguments \<Rightarrow> error + (string \<times> pyval) list"
  set_input :: "inoutput \<Rightarrow> error + iofile list"
  set_output :: "inoutput \<Rightarrow> error + iofile list"
  set_params :: "arguments \<Rightarrow> error + arguments"
  set_log :: "inoutput \<Rightarrow> error + iofile list"
  get_conda_env :: "pyval \<Rightarrow> pyval \<Rightarrow> pyval"
  get_basedir :: "string \<Rightarrow> string"
  copy_ruleinfo :: "ruleinfo \<Rightarrow> ruleinfo"
  child_modifier :: "modifier \<Rightarrow> string list \<Rightarrow> string option \<Rightarrow> ruleinfo option \<Rightarrow> modifier"
  use_rules :: "string \<Rightarrow> string list \<Rightarrow> string option \<Rightarrow> string list \<Rightarrow> ruleinfo option
                \<Rightarrow> workflow \<Rightarrow> error + workflow"

text \<open>
  What \<^verbatim>\<open>decorate\<close> works on: the controller, the Rule captured by the closure, the
  accumulator it was called with and the closure's variable \<^verbatim>\<open>name\<close>. The Rule is one
  object shared with the registry; the model writes it back under \<open>nm\<close> when the closure
  returns. An exception ends the definition pass, so no state is kept for it.
\<close>

record dstate =
  flow :: workflow
  rl :: Rule
  ri :: ruleinfo
  nm :: string

type_synonym step = "dstate \<Rightarrow> error + dstate"

text \<open>\<^verbatim>\<open>d.update(e)\<close> on dictionaries kept in insertion order.\<close>

definition dict_update :: "(string \<times> 'v) list \<Rightarrow> (string \<times> 'v) list \<Rightarrow> (string \<times> 'v) list" where
  "dict_update d e = fold (\<lambda>(k, v). AList.update k v) e d"

text \<open>\<^verbatim>\<open>a == b\<close> on directive values: numbers compare by value, strings by content.\<close>

fun num_value :: "pyval \<Rightarrow> rat option" where
  "num_value (PBool b) = Some (if b then 1 else 0)"
| "num_value (PInt i) = Some (of_int i)"
| "num_value (PFloat (Finite q)) = Some q"
| "num_value _ = None"

fun str_value :: "pyval \<Rightarrow> string option" where
  "str_value (PStr s) = Some s"
| "str_value (PFlagged s fl) = Some s"
| "str_value _ = None"

definition py_eq :: "pyval \<Rightarrow> pyval \<Rightarrow> bool" where
  "py_eq a b =
     (case (num_value a, num_value b) of
        (Some x, Some y) \<Rightarrow> x = y
      | _ \<Rightarrow> (case (str_value a, str_value b) of
                (Some x, Some y) \<Rightarrow> x = y
              | _ \<Rightarrow> a = b))"

definition log_warning :: "string \<Rightarrow> workflow \<Rightarrow> workflow" where
  "log_warning msg w = w\<lparr>logged := logged w @ [Warning msg]\<rparr>"

subsection \<open>Inputs, outputs and parameters\<close>

definition step_apply_modifier :: "collab \<Rightarrow> modifier \<Rightarrow> step" where
  "step_apply_modifier c m s = Inr (s\<lparr>ri := apply_modifier c m (ri s)\<rparr>)"

definition step_wildcard_constraints :: "collab \<Rightarrow> step" where
  "step_wildcard_constraints c s =
     (case ri_wildcard_constraints (ri s) of
        None \<Rightarrow> Inr s
      | Some a \<Rightarrow>
          and_then (set_wildcard_constraints c a)
            (\<lambda>wc. Inr (s\<lparr>rl := (rl s)\<lparr>r_wildcard_constraints := wc\<rparr>\<rparr>)))"

text \<open>
  The \<^verbatim>\<open>name\<close> directive: the Rule moves to the new key, which goes to the end of the
  \<^verbatim>\<open>OrderedDict\<close> unless it is already the key of another rule, whose entry it takes.
\<close>

definition step_name :: step where
  "step_name s =
     (case ri_name (ri s) of
        None \<Rightarrow> Inr s
      | Some n \<Rightarrow>
          if n = [] then Inr s
          else if \<not> is_rule (flow s) (nm s) then Inl (KeyError (nm s))
          else
            let r = (rl s)\<lparr>r_name := n\<rparr>
            in Inr (s\<lparr>rl := r,
                       flow := (flow s)\<lparr>rules := AList.update n r (AList.delete (nm s) (rules (flow s)))\<rparr>,
                       nm := n\<rparr>))"

definition step_input :: "collab \<Rightarrow> step" where
  "step_input c s =
     (case ri_input (ri s) of
        None \<Rightarrow> Inr s
      | Some io \<Rightarrow> and_then (set_input c io) (\<lambda>fs. Inr (s\<lparr>rl := (rl s)\<lparr>r_input := fs\<rparr>\<rparr>)))"

definition step_output :: "collab \<Rightarrow> step" where
  "step_output c s =
     (case ri_output (ri s) of
        None \<Rightarrow> Inr s
      | Some io \<Rightarrow> and_then (set_output c io) (\<lambda>fs. Inr (s\<lparr>rl := (rl s)\<lparr>r_output := fs\<rparr>\<rparr>)))"

definition step_params :: "collab \<Rightarrow> step" where
  "step_params c s =
     (case ri_params (ri s) of
        None \<Rightarrow> Inr s
      | Some a \<Rightarrow> and_then (set_params c a) (\<lambda>ps. Inr (s\<lparr>rl := (rl s)\<lparr>r_params := ps\<rparr>\<rparr>)))"

definition step_default_resources :: step where
  "step_default_resources s =
     (case default_resources (flow s) of
        None \<Rightarrow> Inr s
      | Some parsed \<Rightarrow> Inr (s\<lparr>rl := (rl s)\<lparr>r_resources := parsed\<rparr>\<rparr>))"

subsection \<open>Threads, shadow, resources, priority, retries\<close>

definition step_threads :: step where
  "step_threads s =
     (let threads = ri_threads (ri s) in
      if threads = PNone then Inr s
      else if \<not> is_int threads \<and> \<not> is_float threads \<and> \<not> callable threads
      then Inl (RuleException ThreadsType)
      else
        case overwrite_threads (flow s) (nm s) of
          Some t \<Rightarrow> Inr (s\<lparr>rl := (rl s)\<lparr>r_resources := AList.update ''_cores'' t (r_resources (rl s))\<rparr>\<rparr>)
        | None \<Rightarrow>
            (case threads of
               PFloat f \<Rightarrow>
                 and_then (int_of_float f)
                   (\<lambda>i. Inr (s\<lparr>ri := (ri s)\<lparr>ri_threads := PInt i\<rparr>,
                                rl := (rl s)\<lparr>r_resources :=
                                        AList.update ''_cores'' (PInt i) (r_resources (rl s))\<rparr>\<rparr>))
             | _ \<Rightarrow>
                 Inr (s\<lparr>rl := (rl s)\<lparr>r_resources :=
                                  AList.update ''_cores'' threads (r_resources (rl s))\<rparr>\<rparr>)))"

definition shadow_values :: "pyval list" where
  "shadow_values = [PBool True, PStr ''shallow'', PStr ''full'', PStr ''minimal'', PStr ''copy-minimal'']"

definition step_shadow :: step where
  "step_shadow s =
     (let shadow_depth = ri_shadow_depth (ri s) in
      if \<not> truthy shadow_depth then Inr s
      else if \<not> list_ex (py_eq shadow_depth) shadow_values then Inl (RuleException ShadowValue)
      else if is_True shadow_depth
      then Inr (s\<lparr>rl := (rl s)\<lparr>r_shadow_depth := PStr ''full''\<rparr>,
                  flow := log_warning ''Shadow is set to True'' (flow s)\<rparr>)
      else Inr (s\<lparr>rl := (rl s)\<lparr>r_shadow_depth := shadow_depth\<rparr>\<rparr>))"

definition step_resources :: step where
  "step_resources s =
     (case ri_resources (ri s) of
        None \<Rightarrow> Inr s
      | Some (args, resources) \<Rightarrow>
          if args \<noteq> [] then Inl (RuleException ResourcesPositional)
          else if \<not> list_all (\<lambda>r. is_int r \<or> is_str r \<or> callable r) (map snd resources)
          then Inl (RuleException ResourcesType)
          else Inr (s\<lparr>rl := (rl s)\<lparr>r_resources := dict_update (r_resources (rl s)) resources\<rparr>\<rparr>))"

definition step_overwrite_resources :: step where
  "step_overwrite_resources s =
     (case overwrite_resources (flow s) (nm s) of
        None \<Rightarrow> Inr s
      | Some res \<Rightarrow> Inr (s\<lparr>rl := (rl s)\<lparr>r_resources := dict_update (r_resources (rl s)) res\<rparr>\<rparr>))"

definition step_priority :: step where
  "step_priority s =
     (let priority = ri_priority (ri s) in
      if \<not> truthy priority then Inr s
      else if \<not> is_int priority \<and> \<not> is_float priority then Inl (RuleException PriorityType)
      else Inr (s\<lparr>rl := (rl s)\<lparr>r_priority := priority\<rparr>\<rparr>))"

definition step_retries :: step where
  "step_retries s =
     (let retries = ri_retries (ri s) in
      if truthy retries \<and> (\<not> is_int retries \<or> int_value retries < 0)
      then Inl (RuleException RetriesValue)
      else Inr (s\<lparr>rl := (rl s)\<lparr>r_restart_times :=
                          (if retries = PNone then restart_times (flow s) else retries)\<rparr>\<rparr>))"

subsection \<open>Log, benchmark, group and software environment\<close>

definition step_version :: step where
  "step_version s =
     (if truthy (ri_version (ri s)) then Inr (s\<lparr>rl := (rl s)\<lparr>r_version := ri_version (ri s)\<rparr>\<rparr>)
      else Inr s)"

definition step_log :: "collab \<Rightarrow> step" where
  "step_log c s =
     (case ri_log (ri s) of
        None \<Rightarrow> Inr s
      | Some io \<Rightarrow> and_then (set_log c io) (\<lambda>fs. Inr (s\<lparr>rl := (rl s)\<lparr>r_log := fs\<rparr>\<rparr>)))"

definition step_message :: step where
  "step_message s =
     (if truthy (ri_message (ri s)) then Inr (s\<lparr>rl := (rl s)\<lparr>r_message := ri_message (ri s)\<rparr>\<rparr>)
      else Inr s)"

definition step_benchmark :: step where
  "step_benchmark s =
     (case ri_benchmark (ri s) of
        None \<Rightarrow> Inr s
      | Some io \<Rightarrow> Inr (s\<lparr>rl := (rl s)\<lparr>r_benchmark := paths io\<rparr>\<rparr>))"

definition step_group :: step where
  "step_group s =
     (if \<not> run_local (flow s) then
        let group = py_or (case overwrite_groups (flow s) (nm s) of None \<Rightarrow> PNone | Some g \<Rightarrow> g)
                          (ri_group (ri s))
        in if group \<noteq> PNone then Inr (s\<lparr>rl := (rl s)\<lparr>r_group := group\<rparr>\<rparr>) else Inr s
      else Inr s)"

definition step_wrapper :: "collab \<Rightarrow> step" where
  "step_wrapper c s =
     (if truthy (ri_wrapper (ri s))
      then Inr (s\<lparr>rl := (rl s)\<lparr>r_conda_env :=
                          get_conda_env c (ri_wrapper (ri s)) (wrapper_prefix (flow s))\<rparr>\<rparr>)
      else Inr s)"

text \<open>
  \<^verbatim>\<open>not (ruleinfo.script or ruleinfo.wrapper or ruleinfo.shellcmd or ruleinfo.notebook)\<close>.
\<close>

definition invalid_rule :: "ruleinfo \<Rightarrow> bool" where
  "invalid_rule i =
     (\<not> truthy (py_or (ri_script i) (py_or (ri_wrapper i) (py_or (ri_shellcmd i) (ri_notebook i)))))"

definition step_env_modules :: step where
  "step_env_modules s =
     (case ri_env_modules (ri s) of
        None \<Rightarrow> Inr s
      | Some mods \<Rightarrow>
          if mods = [] then Inr s
          else if invalid_rule (ri s) then Inl (RuleException EnvmodulesNotAllowed)
          else Inr (s\<lparr>rl := (rl s)\<lparr>r_env_modules := Some mods\<rparr>\<rparr>))"

definition step_conda_env :: step where
  "step_conda_env s =
     (let conda_env = ri_conda_env (ri s) in
      if \<not> truthy conda_env then Inr s
      else if invalid_rule (ri s) then Inl (RuleException CondaNotAllowed)
      else
        let conda_env1 = (case conda_env of PPath p \<Rightarrow> PStr p | v \<Rightarrow> v)
        in Inr (s\<lparr>ri := (ri s)\<lparr>ri_conda_env := conda_env1\<rparr>,
                   rl := (rl s)\<lparr>r_conda_env := conda_env1\<rparr>\<rparr>))"

definition step_container :: step where
  "step_container s =
     (if truthy (ri_container_img (ri s)) then
        if invalid_rule (ri s) then Inl (RuleException ContainerNotAllowed)
        else Inr (s\<lparr>rl := (rl s)\<lparr>r_container_img := ri_container_img (ri s),
                                  r_is_containerized := ri_is_containerized (ri s)\<rparr>\<rparr>)
      else if truthy (global_container_img (flow s)) then
        if \<not> invalid_rule (ri s) \<and> \<not> py_eq (ri_container_img (ri s)) (PBool False)
        then Inr (s\<lparr>rl := (rl s)\<lparr>r_container_img := global_container_img (flow s),
                                  r_is_containerized := global_is_containerized (flow s)\<rparr>\<rparr>)
        else Inr s
      else Inr s)"

text \<open>
  The unconditional assignments. \<^verbatim>\<open>self.current_basedir\<close> asserts that a Snakefile is
  being parsed.
\<close>

definition step_assign :: "collab \<Rightarrow> step" where
  "step_assign c s =
     (let i = ri s;
          r1 = (rl s)\<lparr>r_norun := ri_norun i\<rparr>;
          r2 = (case ri_name i of None \<Rightarrow> r1 | Some n \<Rightarrow> r1\<lparr>r_name := n\<rparr>);
          r3 = r2\<lparr>r_docstring := ri_docstring i, r_run_func := ri_func i,
                  r_shellcmd := ri_shellcmd i, r_script := ri_script i,
                  r_notebook := ri_notebook i, r_wrapper := ri_wrapper i,
                  r_template_engine := ri_template_engine i, r_cwl := ri_cwl i\<rparr>
      in if included_stack (flow s) = [] then Inl AssertionError
         else Inr (s\<lparr>rl := r3\<lparr>r_basedir := get_basedir c (last (included_stack (flow s)))\<rparr>\<rparr>))"

subsection \<open>Handover, caching, default target, local rule\<close>

definition step_handover :: step where
  "step_handover s =
     (if truthy (ri_handover (ri s)) then
        let r1 = (if ri_resources (ri s) = None
                  then (rl s)\<lparr>r_resources :=
                         dict_update (r_resources (rl s))
                           (filter (\<lambda>(name, val). val \<noteq> PNone) (global_resources (flow s)))\<rparr>
                  else rl s)
        in Inr (s\<lparr>rl := r1\<lparr>r_is_handover := True\<rparr>,
                   flow := (flow s)\<lparr>localrules := insert (r_name r1) (localrules (flow s))\<rparr>\<rparr>)
      else Inr s)"

text \<open>
  The \<^verbatim>\<open>cache\<close> directive. The guard of the inner \<^verbatim>\<open>if\<close> is the value of
  \<^verbatim>\<open>ruleinfo.cache is True or "omit-software" or "all"\<close>.
\<close>

definition cache_guard :: "pyval \<Rightarrow> pyval" where
  "cache_guard cache = py_or (PBool (is_True cache)) (py_or (PStr ''omit-software'') (PStr ''all''))"

definition step_cache :: step where
  "step_cache s =
     (let cache = ri_cache (ri s) in
      if truthy cache then
        if length (r_output (rl s)) > 1 \<and> \<not> is_multiext (r_output (rl s) ! 0)
        then Inl (WorkflowError MultipleOutputCache)
        else if \<not> enable_cache (flow s)
        then Inr (s\<lparr>flow := log_warning ''Workflow defines that rule is eligible for caching between workflows (use the --cache argument to enable this).'' (flow s)\<rparr>)
        else if truthy (cache_guard cache)
        then Inr (s\<lparr>flow := (flow s)\<lparr>cache_rules :=
                     (cache_rules (flow s))(r_name (rl s) \<mapsto> (if is_True cache then PStr ''all'' else cache))\<rparr>\<rparr>)
        else Inl (WorkflowError InvalidCacheValue)
      else Inr s)"

definition step_benchmark_cache :: step where
  "step_benchmark_cache s =
     (if ri_benchmark (ri s) \<noteq> None \<and> truthy (get_cache_mode (flow s) (rl s))
      then Inl (WorkflowError BenchmarkWithCache)
      else Inr s)"

definition step_default_target :: step where
  "step_default_target s =
     (if is_True (ri_default_target (ri s))
      then Inr (s\<lparr>flow := (flow s)\<lparr>default_target := Some (r_name (rl s))\<rparr>\<rparr>)
      else if \<not> is_False (ri_default_target (ri s)) then Inl (WorkflowError InvalidDefaultTarget)
      else Inr s)"

definition step_localrule :: step where
  "step_localrule s =
     (if is_True (ri_localrule (ri s))
      then Inr (s\<lparr>flow := (flow s)\<lparr>localrules := insert (r_name (rl s)) (localrules (flow s))\<rparr>\<rparr>)
      else Inr s)"

subsection \<open>Publishing the rule\<close>

text \<open>
  The function is bound in the definition namespace under \<^verbatim>\<open>__<rule name>\<close>, the proxy is
  set on the \<^verbatim>\<open>rules\<close> object under the original and the final name, a checkpoint is
  registered, and the accumulator is kept on the Rule. The last line of the model writes
  the Rule, which the registry shares with the closure, back under its key.
\<close>

definition step_publish :: "string \<Rightarrow> bool \<Rightarrow> step" where
  "step_publish orig_name checkpoint s =
     (let w = flow s;
          r = (rl s)\<lparr>r_ruleinfo := Some (ri s)\<rparr>;
          w1 = w\<lparr>globals := (globals w)((''__'' @ r_name r) \<mapsto> ri_func (ri s))\<rparr>;
          w2 = w1\<lparr>rule_proxies := (rule_proxies w1)(orig_name \<mapsto> r_name r, r_name r \<mapsto> r_name r)\<rparr>;
          w3 = (if checkpoint
                then w2\<lparr>checkpoints := (checkpoints w2)(orig_name \<mapsto> r_name r, r_name r \<mapsto> r_name r)\<rparr>
                else w2)
      in if \<not> callable (ri_func (ri s)) then Inl AttributeError
         else Inr (s\<lparr>rl := r, flow := w3\<lparr>rules := AList.update (nm s) r (rules w3)\<rparr>\<rparr>))"

subsection \<open>The closure \<^verbatim>\<open>decorate\<close>\<close>

fun run_steps :: "step list \<Rightarrow> step" where
  "run_steps [] s = Inr s"
| "run_steps (f # fs) s = and_then (f s) (run_steps fs)"

definition decorate_io :: "collab \<Rightarrow> modifier \<Rightarrow> step" where
  "decorate_io c m =
     run_steps [step_apply_modifier c m, step_wildcard_constraints c, step_name,
                step_input c, step_output c, step_params c, step_default_resources]"

definition decorate_resources :: step where
  "decorate_resources =
     run_steps [step_threads, step_shadow, step_resources, step_overwrite_resources,
                step_priority, step_retries]"

definition decorate_environment :: "collab \<Rightarrow> step" where
  "decorate_environment c =
     run_steps [step_version, step_log c, step_message, step_benchmark, step_group,
                step_wrapper c, step_env_modules, step_conda_env, step_container,
                step_assign c]"

definition decorate_directives :: "collab \<Rightarrow> modifier \<Rightarrow> step" where
  "decorate_directives c m =
     run_steps [decorate_io c m, decorate_resources, decorate_environment c, step_handover]"

definition decorate_policy :: step where
  "decorate_policy =
     run_steps [step_cache, step_benchmark_cache, step_default_target, step_localrule]"

definition decorate_steps :: "collab \<Rightarrow> modifier \<Rightarrow> string \<Rightarrow> bool \<Rightarrow> step" where
  "decorate_steps c m orig_name checkpoint =
     run_steps [decorate_directives c m, decorate_policy, step_publish orig_name checkpoint]"

text \<open>
  \<^verbatim>\<open>decorate(ruleinfo)\<close> for the closure \<open>h\<close> that \<open>rule\<close> returned, called in the
  controller state \<open>w\<close>. The closure of a skipped rule returns without touching anything.
\<close>

definition decorate :: "collab \<Rightarrow> modifier \<Rightarrow> workflow \<Rightarrow> handle \<Rightarrow> ruleinfo \<Rightarrow> error + workflow" where
  "decorate c m w h i =
     (case h of
        Skipped \<Rightarrow> Inr w
      | Registered name orig_name checkpoint \<Rightarrow>
          (case map_of (rules w) name of
             None \<Rightarrow> Inl (KeyError name)
           | Some r \<Rightarrow>
               and_then (decorate_steps c m orig_name checkpoint \<lparr>flow = w, rl = r, ri = i, nm = name\<rparr>)
                 (\<lambda>s. Inr (flow s))))"

subsection \<open>Who sets the cores of a rule\<close>

text \<open>
  After the \<^verbatim>\<open>threads\<close> directive has set \<^verbatim>\<open>rule.resources["_cores"]\<close>, three later places
  of \<^verbatim>\<open>decorate\<close> can assign that key again: the \<^verbatim>\<open>resources\<close> directive, the per-rule
  resources given on the command line, and \<^verbatim>\<open>handover\<close>. \<open>no_cores_override\<close> says that
  none of them does for the rule being finalized; \<open>cores_kept v s t\<close> says that in state
  \<open>t\<close> the key holds \<open>v\<close> and that what \<open>no_cores_override\<close> reads is as in \<open>s\<close>.
\<close>

definition cores_kept :: "pyval \<Rightarrow> dstate \<Rightarrow> dstate \<Rightarrow> bool" where
  "cores_kept v s t =
     (map_of (r_resources (rl t)) ''_cores'' = Some v
      \<and> ri_resources (ri t) = ri_resources (ri s)
      \<and> ri_handover (ri t) = ri_handover (ri s)
      \<and> overwrite_resources (flow t) = overwrite_resources (flow s)
      \<and> nm t = nm s)"

definition no_cores_override :: "dstate \<Rightarrow> bool" where
  "no_cores_override s =
     ((\<forall>a res. ri_resources (ri s) = Some (a, res) \<longrightarrow> ''_cores'' \<notin> fst ` set res)
      \<and> (\<forall>res. overwrite_resources (flow s) (nm s) = Some res \<longrightarrow> ''_cores'' \<notin> fst ` set res)
      \<and> \<not> truthy (ri_handover (ri s)))"

text \<open>The steps of \<^verbatim>\<open>decorate\<close> between applying the modifier and publishing the rule.\<close>

definition later_steps :: "collab \<Rightarrow> step list" where
  "later_steps c =
     [step_wildcard_constraints c, step_name, step_input c, step_output c,
      step_params c, step_default_resources, step_threads, step_shadow, step_resources,
      step_overwrite_resources, step_priority, step_retries, step_version, step_log c,
      step_message, step_benchmark, step_group, step_wrapper c, step_env_modules,
      step_conda_env, step_container, step_assign c, step_handover, step_cache,
      step_benchmark_cache, step_default_target, step_localrule]"

section \<open>Modules and rule inheritance\<close>

text \<open>\<^verbatim>\<open>Workflow.module\<close> registers a module under its name.\<close>

definition module_def :: "workflow \<Rightarrow> string \<Rightarrow> workflow" where
  "module_def w name = w\<lparr>modules := insert name (modules w)\<rparr>"

text \<open>
  \<^verbatim>\<open>Workflow.userule(...)(maybe_ruleinfo)\<close>. \<open>maybe_ruleinfo\<close> is \<open>None\<close> when the statement
  has no \<^verbatim>\<open>with\<close> block (the decorated object is then a function). Without
  \<^verbatim>\<open>from_module\<close> the statement inherits from a rule of the same workflow: the accumulator
  the source Rule was finalized with is copied, and the copy is registered and finalized
  under the name modifier, inside a modifier made for this statement.
\<close>

definition userule ::
  "collab \<Rightarrow> modifier \<Rightarrow> workflow \<Rightarrow> string list \<Rightarrow> string option \<Rightarrow> string list
     \<Rightarrow> string option \<Rightarrow> ruleinfo option \<Rightarrow> pyval \<Rightarrow> error + workflow" where
  "userule c m w rulenames from_module exclude_rules name_modifier maybe_ruleinfo lineno =
     (case from_module of
        Some mname \<Rightarrow>
          if mname \<notin> modules w then Inl (WorkflowError ModuleNotRegistered)
          else use_rules c mname rulenames name_modifier exclude_rules maybe_ruleinfo w
      | None \<Rightarrow>
          if skip_rule m name_modifier then Inr w
          else if length rulenames > 1 then Inl (WorkflowError UseRuleMultiple)
          else
            (case rulenames of
               [] \<Rightarrow> Inl IndexError
             | first # others \<Rightarrow>
                 (case map_of (rules w) (modify_rulename m first) of
                    None \<Rightarrow> Inl (KeyError (modify_rulename m first))
                  | Some orig_rule \<Rightarrow>
                      let ruleinfo = maybe_ruleinfo;
                          m1 = child_modifier c m rulenames name_modifier ruleinfo
                      in if included_stack w = [] then Inl IndexError
                         else
                           (case rule m1 w name_modifier lineno (PStr (last (included_stack w))) False of
                              (w1, Inl e) \<Rightarrow> Inl e
                            | (w1, Inr h) \<Rightarrow>
                                (case r_ruleinfo orig_rule of
                                   None \<Rightarrow> Inl AttributeError
                                 | Some i \<Rightarrow> decorate c m1 w1 h (copy_ruleinfo c i))))))"

text \<open>
  What finalizing does to the accumulator it is called with, once the modifier has been
  applied: a float \<^verbatim>\<open>threads\<close> value may be replaced by its integer, a \<^verbatim>\<open>Path\<close> given to
  \<^verbatim>\<open>conda\<close> by its string. \<open>clone_of i j\<close> says that \<open>i\<close> is \<open>j\<close> up to these two.
\<close>

definition clone_of :: "ruleinfo \<Rightarrow> ruleinfo \<Rightarrow> bool" where
  "clone_of i j =
     (i\<lparr>ri_threads := ri_threads j, ri_conda_env := ri_conda_env j\<rparr> = j
      \<and> (case ri_threads j of
            PFloat f \<Rightarrow>
              (case int_of_float f of
                 Inr n \<Rightarrow> ri_threads i = PInt n \<or> ri_threads i = ri_threads j
               | Inl e \<Rightarrow> ri_threads i = ri_threads j)
          | v \<Rightarrow> ri_threads i = v)
      \<and> (ri_conda_env i = ri_conda_env j
           \<or> ri_conda_env i = (case ri_conda_env j of PPath p \<Rightarrow> PStr p | v \<Rightarrow> v)))"

section \<open>Running the workflow\<close>

text \<open>
  \<^verbatim>\<open>Workflow.execute\<close> drives collaborators that are not part of this file: the DAG, the
  persistence store, the scheduler, the nested run \<^verbatim>\<open>subsnakemake\<close>. The model records
  every call to them as an event, in order, and takes what they answer from \<open>env\<close>. The
  run either returns a truth value or raises.
\<close>

datatype outcome = Returned bool | Raised error

datatype event =
    WaitForFiles
  | BuildDAG "string list" "string list"
  | InitPersistence
  | DeactivatePersistenceCache
  | CleanupMetadata string
  | CleanupLocks
  | DagInit
  | UpdateCheckpointDependencies
  | CheckDynamic
  | Lock
  | CleanupShadow
  | Containerize
  | Subsnakemake string "string list"
  | DagPostprocess
  | DeactivateIOCache
  | Inspect string
  | PullContainerImgs
  | CreateCondaEnvs
  | ListCondaEnvs
  | CondaCleanupEnvs
  | CleanupContainers
  | ConstructScheduler
  | OnStart
  | Schedule
  | CleanupWorkdir
  | PrintReasons
  | WriteStats
  | OnSuccess
  | OnError

record job =
  job_rule :: string
  job_input :: "string list"
  job_output :: "string list"
  subworkflow_input :: "(string \<times> string) list"

text \<open>
  What the DAG answers once built: its jobs, the target jobs, the jobs that need to run,
  the checkpoint jobs among them, and \<^verbatim>\<open>len(dag)\<close>. A job object is true, so
  \<^verbatim>\<open>any(dag.checkpoint_jobs)\<close> holds when there is a checkpoint job.
\<close>

record dag =
  jobs :: "job list"
  targetjobs :: "job list"
  needrun_jobs :: "job list"
  checkpoint_jobs :: "job list"
  dag_len :: nat

type_synonym namespace = "string \<rightharpoonup> pyval"

record env =
  the_dag :: dag
  dag_init_error :: "error option"
  lock_error :: "error option"
  wait_for_files_ok :: bool
  cleanup_metadata_ok :: "string \<Rightarrow> bool"
  cleanup_locks_ok :: bool
  path_exists :: "string \<Rightarrow> bool"
  needrun :: "job \<Rightarrow> bool"
  relpath :: "string \<Rightarrow> string \<Rightarrow> string"
  schedule :: "error + bool"

text \<open>
  The arguments of \<^verbatim>\<open>execute\<close> that decide its control flow. \<^verbatim>\<open>subsnakemake\<close> runs a nested
  workflow: given the sub-workflow, its targets and the definition namespace of the
  process, it answers whether it succeeded, the files it updated and the namespace it
  leaves (a nested controller binds \<^verbatim>\<open>workflow\<close>, \<^verbatim>\<open>rules\<close>, ... anew and executes its own
  Snakefile in it). The arguments \<^verbatim>\<open>forcerun\<close>, \<^verbatim>\<open>until\<close>, \<^verbatim>\<open>omit_from\<close>,
  \<^verbatim>\<open>prioritytargets\<close> and \<^verbatim>\<open>target_jobs\<close> have their defaults.
\<close>

record exec_args =
  targets :: "string list"
  dryrun :: bool
  wait_for_files :: "string list option"
  cleanup_metadata :: "string list"
  unlock :: bool
  cleanup_shadow :: bool
  containerize :: bool
  subsnakemake :: "(subworkflow \<Rightarrow> string list \<Rightarrow> namespace \<Rightarrow> bool \<times> string list \<times> namespace) option"
  updated_files :: "string list option"
  nodeps :: bool
  generate_unit_tests :: bool
  export_cwl :: bool
  report :: bool
  printd3dag :: bool
  printdag :: bool
  printrulegraph :: bool
  printfilegraph :: bool
  summary :: bool
  detailed_summary :: bool
  archive :: bool
  delete_all_output :: bool
  delete_temp_output :: bool
  list_version_changes :: bool
  list_code_changes :: bool
  list_input_changes :: bool
  list_params_changes :: bool
  list_untracked :: bool
  list_conda_envs :: bool
  conda_create_envs_only :: bool
  conda_cleanup_envs :: bool
  cleanup_containers :: bool
  quiet :: bool
  no_hooks :: bool
  stats :: bool

text \<open>
  The state of a run: the controller, the events so far, and the two collections the run
  extends (\<^verbatim>\<open>updated_files\<close> of the caller, \<^verbatim>\<open>dag.updated_subworkflow_files\<close>).
\<close>

record run_state =
  controller :: workflow
  trace :: "event list"
  updated :: "string list option"
  updated_subworkflow_files :: "string list"

text \<open>A stage of the run goes on (\<open>None\<close>) or ends the run with an outcome.\<close>

type_synonym stage = "run_state \<Rightarrow> run_state \<times> outcome option"

definition emit :: "event list \<Rightarrow> run_state \<Rightarrow> run_state" where
  "emit es s = s\<lparr>trace := trace s @ es\<rparr>"

definition say :: "log_entry \<Rightarrow> run_state \<Rightarrow> run_state" where
  "say l s = s\<lparr>controller := (controller s)\<lparr>logged := logged (controller s) @ [l]\<rparr>\<rparr>"

fun run_stages :: "stage list \<Rightarrow> stage" where
  "run_stages [] s = (s, None)"
| "run_stages (f # fs) s =
     (case f s of
        (s1, Some r) \<Rightarrow> (s1, Some r)
      | (s1, None) \<Rightarrow> run_stages fs s1)"

subsection \<open>Validation, targets, graph and state\<close>

text \<open>\<^verbatim>\<open>Workflow.check_localrules\<close>.\<close>

definition check_localrules :: stage where
  "check_localrules s =
     (let undefined = localrules (controller s) - fst ` set (rules (controller s))
      in if undefined \<noteq> {}
         then (say (Warning ''localrules directive specifies rules that are not present in the Snakefile'') s, None)
         else (s, None))"

definition stage_wait_for_files :: "exec_args \<Rightarrow> env \<Rightarrow> stage" where
  "stage_wait_for_files a e s =
     (case wait_for_files a of
        None \<Rightarrow> (s, None)
      | Some fs \<Rightarrow>
          if wait_for_files_ok e then (emit [WaitForFiles] s, None)
          else (say (Error ''wait_for_files'') (emit [WaitForFiles] s), Some (Returned False)))"

text \<open>
  The requested targets fall back to the default target and are split into rules and
  files; then the DAG and the persistence store are constructed.
\<close>

definition stage_build_dag :: "exec_args \<Rightarrow> stage" where
  "stage_build_dag a s =
     (let w = controller s;
          targets1 = (if targets a = []
                      then (case default_target w of None \<Rightarrow> [] | Some t \<Rightarrow> [t])
                      else targets a);
          targetrules = filter (is_rule w) targets1;
          targetfiles = filter (\<lambda>t. \<not> is_rule w t) targets1;
          s1 = emit [BuildDAG targetrules targetfiles, InitPersistence] s
      in if mode w = Subprocess \<or> mode w = Cluster
         then (emit [DeactivatePersistenceCache] s1, None)
         else (s1, None))"

subsection \<open>Maintenance actions that end the run\<close>

definition stage_cleanup_metadata :: "exec_args \<Rightarrow> env \<Rightarrow> stage" where
  "stage_cleanup_metadata a e s =
     (if cleanup_metadata a \<noteq> [] then
        let s1 = emit (map CleanupMetadata (cleanup_metadata a)) s;
            failed = filter (\<lambda>f. \<not> cleanup_metadata_ok e f) (cleanup_metadata a)
        in if failed \<noteq> []
           then (say (Warning ''Failed to clean up metadata'') s1, Some (Returned True))
           else (s1, Some (Returned True))
      else (s, None))"

definition stage_unlock :: "exec_args \<Rightarrow> env \<Rightarrow> stage" where
  "stage_unlock a e s =
     (if unlock a then
        if cleanup_locks_ok e
        then (say (Info ''Unlocking working directory.'') (emit [CleanupLocks] s), Some (Returned True))
        else (say (Error ''Error: Unlocking the directory failed.'') (emit [CleanupLocks] s),
              Some (Returned False))
      else (s, None))"

text \<open>The job set is resolved, then the run lock is taken.\<close>

definition stage_dag_init :: "env \<Rightarrow> stage" where
  "stage_dag_init e s =
     (let s1 = say (Info ''Building DAG of jobs...'') s in
      case dag_init_error e of
        Some err \<Rightarrow> (emit [DagInit] s1, Some (Raised err))
      | None \<Rightarrow>
          (case lock_error e of
             Some err \<Rightarrow>
               (emit [DagInit, UpdateCheckpointDependencies, CheckDynamic, Lock] s1, Some (Raised err))
           | None \<Rightarrow>
               (emit [DagInit, UpdateCheckpointDependencies, CheckDynamic, Lock] s1, None)))"

definition stage_cleanup_shadow :: "exec_args \<Rightarrow> stage" where
  "stage_cleanup_shadow a s =
     (if cleanup_shadow a then (emit [CleanupShadow] s, Some (Returned True)) else (s, None))"

definition stage_containerize :: "exec_args \<Rightarrow> stage" where
  "stage_containerize a s =
     (if containerize a then (emit [Containerize] s, Some (Returned True)) else (s, None))"

subsection \<open>Sub-workflows\<close>

text \<open>
  \<^verbatim>\<open>Subworkflow.targets\<close>: the files the jobs of the DAG request from this sub-workflow,
  relative to its working directory when they lie in it.
\<close>

definition sw_targets :: "env \<Rightarrow> subworkflow \<Rightarrow> dag \<Rightarrow> string list" where
  "sw_targets e sw d =
     concat (map (\<lambda>j. map (\<lambda>(f, n). if take (length (sw_workdir sw)) f = sw_workdir sw
                                     then relpath e f (sw_workdir sw) else f)
                         (filter (\<lambda>(f, n). n = sw_name sw) (subworkflow_input j)))
                 (jobs d))"

text \<open>
  The loop over the sub-workflows. A failing nested run ends the run at once, with the
  namespace as the nested runs left it.
\<close>

fun run_subworkflows ::
  "exec_args \<Rightarrow> env \<Rightarrow> subworkflow list \<Rightarrow> stage" where
  "run_subworkflows a e [] s = (s, None)"
| "run_subworkflows a e (sw # sws) s =
     (let subworkflow_targets = sw_targets e sw (the_dag e);
          s1 = say (Debug ''Files requested from subworkflow'') s
      in if subworkflow_targets \<noteq> [] then
           (case subsnakemake a of
              None \<Rightarrow> (say (Info ''Executing subworkflow'') s1, Some (Raised TypeError))
            | Some nested \<Rightarrow>
                (case nested sw subworkflow_targets (globals (controller s1)) of
                   (ok, updated_by_nested, g) \<Rightarrow>
                     let s2 = emit [Subsnakemake (sw_name sw) subworkflow_targets]
                                (say (Info ''Executing subworkflow'') s1);
                         s3 = s2\<lparr>controller := (controller s2)\<lparr>globals := g\<rparr>\<rparr>
                     in if \<not> ok then (s3, Some (Returned False))
                        else run_subworkflows a e sws
                               (s3\<lparr>updated_subworkflow_files :=
                                     updated_subworkflow_files s3 @ updated_by_nested\<rparr>)))
         else run_subworkflows a e sws (say (Info ''Subworkflow: Nothing to be done'') s1))"

text \<open>
  \<^verbatim>\<open>globals_backup = dict(self.globals)\<close> before the loop and
  \<^verbatim>\<open>self.globals.update(globals_backup)\<close> after it: \<^verbatim>\<open>update\<close> assigns every key of the
  backup and leaves the other keys alone.
\<close>

definition stage_subworkflows :: "exec_args \<Rightarrow> env \<Rightarrow> stage" where
  "stage_subworkflows a e s =
     (let w = controller s in
      if subworkflows w \<noteq> [] \<and> execute_subworkflows w
         \<and> \<not> printdag a \<and> \<not> printrulegraph a \<and> \<not> printfilegraph a
      then
        let globals_backup = globals w in
        case run_subworkflows a e (map snd (subworkflows w)) s of
          (s1, Some r) \<Rightarrow> (s1, Some r)
        | (s1, None) \<Rightarrow>
            let s2 = say (Info ''Executing main workflow.'') s1
            in (s2\<lparr>controller := (controller s2)\<lparr>globals := globals (controller s2) ++ globals_backup\<rparr>\<rparr>,
                None)
      else (s, None))"

subsection \<open>Pre-flight checks\<close>

definition stage_postprocess :: "exec_args \<Rightarrow> stage" where
  "stage_postprocess a s =
     (if \<not> dryrun a
      then (emit [DagPostprocess, DeactivateIOCache, DeactivatePersistenceCache] s, None)
      else (emit [DagPostprocess] s, None))"

definition stage_nodeps :: "exec_args \<Rightarrow> env \<Rightarrow> stage" where
  "stage_nodeps a e s =
     (if nodeps a then
        let missing_input =
              concat (map (\<lambda>j. filter (\<lambda>f. needrun e j \<and> \<not> path_exists e f) (job_input j))
                          (targetjobs (the_dag e)))
        in if missing_input \<noteq> []
           then (say (Error ''Dependency resolution disabled (--nodeps) but missing input files detected.'') s,
                 Some (Returned False))
           else (s, None)
      else (s, None))"

definition stage_immediate_submit :: "env \<Rightarrow> stage" where
  "stage_immediate_submit e s =
     (if immediate_submit (controller s) \<and> checkpoint_jobs (the_dag e) \<noteq> []
      then (say (Error ''Immediate submit mode (--immediate-submit) may not be used for workflows with checkpoint jobs, as the dependencies cannot be determined before execution in such cases.'') s,
            Some (Returned False))
      else (s, None))"

text \<open>\<^verbatim>\<open>updated_files.extend(...)\<close>; the default \<^verbatim>\<open>None\<close> has no \<^verbatim>\<open>extend\<close>.\<close>

definition stage_updated_files :: "env \<Rightarrow> stage" where
  "stage_updated_files e s =
     (case updated s of
        None \<Rightarrow> (s, Some (Raised AttributeError))
      | Some fs \<Rightarrow>
          (s\<lparr>updated := Some (fs @ concat (map job_output (needrun_jobs (the_dag e))))\<rparr>, None))"

subsection \<open>Inspection modes\<close>

text \<open>The \<^verbatim>\<open>if\<close>/\<^verbatim>\<open>elif\<close> chain of read-only actions: the first one requested ends the run.\<close>

definition inspections :: "exec_args \<Rightarrow> (bool \<times> string) list" where
  "inspections a =
     [(generate_unit_tests a, ''generate_unit_tests''), (export_cwl a, ''export_cwl''),
      (report a, ''report''), (printd3dag a, ''printd3dag''), (printdag a, ''printdag''),
      (printrulegraph a, ''printrulegraph''), (printfilegraph a, ''printfilegraph''),
      (summary a, ''summary''), (detailed_summary a, ''detailed_summary''),
      (archive a, ''archive''), (delete_all_output a, ''delete_all_output''),
      (delete_temp_output a, ''delete_temp_output''),
      (list_version_changes a, ''list_version_changes''),
      (list_code_changes a, ''list_code_changes''),
      (list_input_changes a, ''list_input_changes''),
      (list_params_changes a, ''list_params_changes''),
      (list_untracked a, ''list_untracked'')]"

definition stage_inspect :: "exec_args \<Rightarrow> stage" where
  "stage_inspect a s =
     (case filter fst (inspections a) of
        [] \<Rightarrow> (s, None)
      | (requested, action) # others \<Rightarrow> (emit [Inspect action] s, Some (Returned True)))"

subsection \<open>Environment provisioning\<close>

definition stage_provision :: "exec_args \<Rightarrow> stage" where
  "stage_provision a s =
     (let w = controller s;
          s1 = (if use_singularity w \<and> assume_shared_fs w then emit [PullContainerImgs] s else s);
          s2 = (if use_conda w then emit [CreateCondaEnvs] s1 else s1)
      in if use_conda w \<and> conda_create_envs_only a then (s2, Some (Returned True))
         else if list_conda_envs a then (emit [ListCondaEnvs] s2, Some (Returned True))
         else if conda_cleanup_envs a then (emit [CondaCleanupEnvs] s2, Some (Returned True))
         else if cleanup_containers a then (emit [CleanupContainers] s2, Some (Returned True))
         else (s2, None))"

subsection \<open>Scheduler handoff and completion\<close>

text \<open>
  The scheduler is constructed, then run. A quiet dry run, or a dry run of an empty DAG,
  returns before it is run.
\<close>

definition stage_scheduler :: "exec_args \<Rightarrow> env \<Rightarrow> run_state \<Rightarrow> run_state \<times> outcome" where
  "stage_scheduler a e s =
     (let n = dag_len (the_dag e);
          s1 = emit [ConstructScheduler] s;
          s2 = (if n = 0 then say (Info ''Nothing to be done (all requested files are present and up to date).'') s1
                else s1)
      in if dryrun a \<and> n = 0 then (s2, Returned True)
         else if dryrun a \<and> quiet a then (s2, Returned True)
         else
           let s3 = (if \<not> dryrun a \<and> \<not> no_hooks a then emit [OnStart] s2 else s2);
               s4 = emit [Schedule] s3
           in case schedule e of
                Inl err \<Rightarrow> (s4, Raised err)
              | Inr success \<Rightarrow>
                  let s5 = (if \<not> immediate_submit (controller s4) \<and> \<not> dryrun a
                               \<and> mode (controller s4) = Default
                            then emit [CleanupWorkdir] s4 else s4)
                  in if success then
                       let s6 = (if dryrun a then (if n \<noteq> 0 then emit [PrintReasons] s5 else s5)
                                 else (if stats a then emit [WriteStats] s5 else s5));
                           s7 = (if \<not> dryrun a \<and> \<not> no_hooks a then emit [OnSuccess] s6 else s6)
                       in (s7, Returned True)
                     else
                       let s6 = (if \<not> dryrun a \<and> \<not> no_hooks a then emit [OnError] s5 else s5)
                       in (s6, Returned False))"

subsection \<open>The run\<close>

definition preparation :: "exec_args \<Rightarrow> env \<Rightarrow> stage list" where
  "preparation a e =
     [check_localrules, stage_wait_for_files a e, stage_build_dag a,
      stage_cleanup_metadata a e, stage_unlock a e, stage_dag_init e,
      stage_cleanup_shadow a, stage_containerize a, stage_subworkflows a e,
      stage_postprocess a, stage_nodeps a e]"

definition before_scheduler :: "exec_args \<Rightarrow> env \<Rightarrow> stage list" where
  "before_scheduler a e =
     preparation a e
       @ [stage_immediate_submit e, stage_updated_files e, stage_inspect a, stage_provision a]"

text \<open>
  \<^verbatim>\<open>Workflow.execute\<close>, called on the controller \<open>w\<close>: the events of the run, the
  controller it leaves and its outcome.
\<close>

definition start :: "exec_args \<Rightarrow> workflow \<Rightarrow> run_state" where
  "start a w =
     \<lparr>controller = w, trace = [], updated = updated_files a, updated_subworkflow_files = []\<rparr>"

definition execute :: "exec_args \<Rightarrow> env \<Rightarrow> workflow \<Rightarrow> run_state \<times> outcome" where
  "execute a e w =
     (case run_stages (before_scheduler a e) (start a w) of
        (s, Some r) \<Rightarrow> (s, r)
      | (s, None) \<Rightarrow> stage_scheduler a e s)"

subsection \<open>Runs that have not reached the scheduler\<close>

text \<open>
  \<open>quiet_scheduler s\<close>: no event of the run so far constructs or runs the scheduler.
  \<open>unsubmitted b s\<close>: so, and the immediate-submit flag of the controller is \<open>b\<close>.
\<close>

definition quiet_scheduler :: "run_state \<Rightarrow> bool" where
  "quiet_scheduler s = (ConstructScheduler \<notin> set (trace s) \<and> Schedule \<notin> set (trace s))"

definition unsubmitted :: "bool \<Rightarrow> run_state \<Rightarrow> bool" where
  "unsubmitted b s = (quiet_scheduler s \<and> immediate_submit (controller s) = b)"

section \<open>The controller as constructed\<close>

text \<open>
  \<^verbatim>\<open>Workflow.__init__\<close> with its default arguments, but for \<^verbatim>\<open>cache\<close> (the rule names given
  to \<^verbatim>\<open>--cache\<close>, or \<^verbatim>\<open>None\<close>) and the parsed default resources.
\<close>

definition new_Workflow :: "string list option \<Rightarrow> (string \<times> pyval) list \<Rightarrow> workflow" where
  "new_Workflow cache parsed =
     \<lparr> rules = [], rule_count = 0, default_target = None, localrules = {},
       modifier_rules = [],
       cache_rules = (case cache of
                        None \<Rightarrow> Map.empty
                      | Some names \<Rightarrow> map_of (map (\<lambda>rulename. (rulename, PStr ''all'')) names)),
       enable_cache = (cache \<noteq> None), envvars = {}, check_envvars = True,
       default_resources = Some parsed,
       global_resources = [(''_cores'', PInt 1), (''_nodes'', PInt 1)],
       overwrite_threads = Map.empty, overwrite_resources = Map.empty,
       overwrite_groups = Map.empty, run_local = True, restart_times = PNone,
       wrapper_prefix = PNone, global_container_img = PNone,
       global_is_containerized = False, included_stack = [],
       globals = [''workflow'' \<mapsto> PObject 0, ''cluster_config'' \<mapsto> PObject 1,
                  ''rules'' \<mapsto> PObject 2, ''checkpoints'' \<mapsto> PObject 3,
                  ''scatter'' \<mapsto> PObject 4, ''gather'' \<mapsto> PObject 5,
                  ''github'' \<mapsto> PObject 6, ''gitlab'' \<mapsto> PObject 7,
                  ''gitfile'' \<mapsto> PObject 8, ''config'' \<mapsto> PObject 9],
       rule_proxies = Map.empty, checkpoints = Map.empty, logged = [],
       modules = {}, subworkflows = [], execute_subworkflows = True, immediate_submit = False,
       use_conda = False, use_singularity = False, assume_shared_fs = True,
       mode = Default \<rparr>"

section \<open>Example states\<close>

text \<open>A controller whose registry holds one finalized rule \<^verbatim>\<open>a\<close> of priority 7.\<close>

definition w_a :: workflow where
  "w_a = (new_Workflow None [])\<lparr>rules := [(''a'', (new_Rule ''a'' (PInt 1) PNone)\<lparr>r_priority := PInt 7\<rparr>)]\<rparr>"

text \<open>
  Collaborators for the examples: the modifier changes nothing of the accumulator, paths
  are flattened into files that carry the \<^verbatim>\<open>multiext\<close> flag of the path they come from,
  parameters and constraints are stored as given, a copy of an accumulator has the same
  values, and the modifier of a local \<^verbatim>\<open>use rule ... as n\<close> names every rule as the parent
  modifier names \<^verbatim>\<open>n\<close>.
\<close>

fun io_items :: "pyval \<Rightarrow> iofile list" where
  "io_items (PStr s) = [\<lparr>io_file = s, is_multiext = False\<rparr>]"
| "io_items (PFlagged s fl) = [\<lparr>io_file = s, is_multiext = (''multiext'' \<in> set fl)\<rparr>]"
| "io_items (PTuple xs) = concat (map io_items xs)"
| "io_items _ = []"

definition plain_collab :: collab where
  "plain_collab =
     \<lparr> apply_modifier = (\<lambda>m i. i),
       set_wildcard_constraints = (\<lambda>a. Inr (snd a)),
       set_input = (\<lambda>io. Inr (io_items (paths io) @ concat (map (io_items \<circ> snd) (kwpaths io)))),
       set_output = (\<lambda>io. Inr (io_items (paths io) @ concat (map (io_items \<circ> snd) (kwpaths io)))),
       set_params = (\<lambda>a. Inr a),
       set_log = (\<lambda>io. Inr (io_items (paths io) @ concat (map (io_items \<circ> snd) (kwpaths io)))),
       get_conda_env = (\<lambda>wrapper prefix. PStr ''environment.yaml''),
       get_basedir = (\<lambda>snakefile. ''.''),
       copy_ruleinfo = (\<lambda>i. i),
       child_modifier =
         (\<lambda>parent rulenames name_modifier ruleinfo.
            parent\<lparr>modify_rulename :=
                     (case name_modifier of
                        None \<Rightarrow> modify_rulename parent
                      | Some n \<Rightarrow> (\<lambda>rulename. modify_rulename parent n)),
                   ruleinfo_overwrite := ruleinfo\<rparr>),
       use_rules = (\<lambda>mname rulenames name_modifier exclude_rules ruleinfo w. Inr w) \<rparr>"

text \<open>The controller while \<^verbatim>\<open>Snakefile\<close> is parsed, with caching disabled and enabled.\<close>

definition w_parsing :: workflow where
  "w_parsing = (new_Workflow None [])\<lparr>included_stack := [''Snakefile'']\<rparr>"

definition w_caching :: workflow where
  "w_caching = (new_Workflow (Some []) [])\<lparr>included_stack := [''Snakefile'']\<rparr>"

text \<open>
  \<^verbatim>\<open>rule a: output: "x.txt", "y.txt"  cache: True  shell: "..."\<close> and the same rule with one
  output and a benchmark file.
\<close>

definition ri_two_outputs :: ruleinfo where
  "ri_two_outputs =
     (new_RuleInfo (PCallable 0))
       \<lparr> ri_shellcmd := PStr ''touch x.txt y.txt'',
         ri_output := Some \<lparr>paths = PTuple [PStr ''x.txt'', PStr ''y.txt''], kwpaths = [], path_modifier = 0\<rparr>,
         ri_cache := PBool True \<rparr>"

definition ri_benchmarked :: ruleinfo where
  "ri_benchmarked =
     (new_RuleInfo (PCallable 0))
       \<lparr> ri_shellcmd := PStr ''touch x.txt'',
         ri_output := Some \<lparr>paths = PTuple [PStr ''x.txt''], kwpaths = [], path_modifier = 0\<rparr>,
         ri_benchmark := Some \<lparr>paths = PStr ''bench.tsv'', kwpaths = [], path_modifier = 0\<rparr>,
         ri_cache := PBool True \<rparr>"

text \<open>
  Registering and finalizing one rule: \<^verbatim>\<open>workflow.rule(name=...)(ruleinfo)\<close>.
\<close>

definition define_rule ::
  "collab \<Rightarrow> modifier \<Rightarrow> workflow \<Rightarrow> string option \<Rightarrow> ruleinfo \<Rightarrow> error + workflow" where
  "define_rule c m w name i =
     (case rule m w name PNone PNone False of
        (w1, Inl e) \<Rightarrow> Inl e
      | (w1, Inr h) \<Rightarrow> decorate c m w1 h i)"

text \<open>The controller after \<^verbatim>\<open>workflow.rule(name="a")\<close>, before the closure is called.\<close>

definition with_rule_a :: "workflow \<Rightarrow> workflow" where
  "with_rule_a w = fst (rule base_modifier w (Some ''a'') PNone PNone False)"

text \<open>
  Rule \<^verbatim>\<open>a\<close> with its outputs declared by \<^verbatim>\<open>multiext("x", ".txt", ".idx")\<close>; with
  \<^verbatim>\<open>cache: "bogus"\<close>; with \<^verbatim>\<open>threads: 3.9\<close> (the double nearest to 3.9 is
  8782019273372467 / 2^51); and with \<^verbatim>\<open>threads: "x"\<close>.
\<close>

definition ri_multiext :: ruleinfo where
  "ri_multiext =
     (new_RuleInfo (PCallable 0))
       \<lparr> ri_shellcmd := PStr ''touch x.txt x.idx'',
         ri_output := Some \<lparr>paths = PTuple [PTuple [PFlagged ''x.txt'' [''multiext''],
                                                    PFlagged ''x.idx'' [''multiext'']]],
                            kwpaths = [], path_modifier = 0\<rparr>,
         ri_cache := PBool True \<rparr>"

definition ri_bogus_cache :: ruleinfo where
  "ri_bogus_cache = (new_RuleInfo (PCallable 0))\<lparr>ri_cache := PStr ''bogus''\<rparr>"

definition s_bogus_cache :: dstate where
  "s_bogus_cache =
     \<lparr>flow = with_rule_a w_caching, rl = new_Rule ''a'' PNone PNone, ri = ri_bogus_cache, nm = ''a''\<rparr>"

definition ri_threads_float :: ruleinfo where
  "ri_threads_float =
     (new_RuleInfo (PCallable 0))
       \<lparr>ri_threads := PFloat (Finite (8782019273372467 / 2251799813685248))\<rparr>"

definition ri_threads_str :: ruleinfo where
  "ri_threads_str = (new_RuleInfo (PCallable 0))\<lparr>ri_threads := PStr ''x''\<rparr>"

text \<open>
  A run with the default arguments of \<^verbatim>\<open>execute\<close>, a caller's empty list for
  \<^verbatim>\<open>updated_files\<close>, and a nested run that succeeds, binds \<^verbatim>\<open>workflow\<close> to its own controller
  and leaves the new name \<^verbatim>\<open>x\<close> in the namespace.
\<close>

definition nested_run :: "subworkflow \<Rightarrow> string list \<Rightarrow> namespace \<Rightarrow> bool \<times> string list \<times> namespace" where
  "nested_run sw ts g = (True, ts, g(''workflow'' \<mapsto> PObject 100, ''x'' \<mapsto> PInt 1))"

definition default_args :: exec_args where
  "default_args =
     \<lparr> targets = [], dryrun = False, wait_for_files = None, cleanup_metadata = [],
       unlock = False, cleanup_shadow = False, containerize = False,
       subsnakemake = Some nested_run, updated_files = Some [], nodeps = False,
       generate_unit_tests = False, export_cwl = False, report = False, printd3dag = False,
       printdag = False, printrulegraph = False, printfilegraph = False, summary = False,
       detailed_summary = False, archive = False, delete_all_output = False,
       delete_temp_output = False, list_version_changes = False, list_code_changes = False,
       list_input_changes = False, list_params_changes = False, list_untracked = False,
       list_conda_envs = False, conda_create_envs_only = False, conda_cleanup_envs = False,
       cleanup_containers = False, quiet = False, no_hooks = False, stats = False \<rparr>"

text \<open>
  A DAG of two jobs: a checkpoint job of rule \<^verbatim>\<open>a\<close> that takes \<^verbatim>\<open>/sub/in.txt\<close> from the
  sub-workflow \<^verbatim>\<open>other\<close>, and a job of rule \<^verbatim>\<open>b\<close>. Every collaborator succeeds.
\<close>

definition job_a :: job where
  "job_a = \<lparr>job_rule = ''a'', job_input = [''/sub/in.txt''], job_output = [''x.txt''],
            subworkflow_input = [(''/sub/in.txt'', ''other'')]\<rparr>"

definition job_b :: job where
  "job_b = \<lparr>job_rule = ''b'', job_input = [''x.txt''], job_output = [''y.txt''],
            subworkflow_input = []\<rparr>"

definition env_ok :: env where
  "env_ok =
     \<lparr> the_dag = \<lparr>jobs = [job_a, job_b], targetjobs = [job_b], needrun_jobs = [job_a, job_b],
                  checkpoint_jobs = [job_a], dag_len = 2\<rparr>,
       dag_init_error = None, lock_error = None, wait_for_files_ok = True,
       cleanup_metadata_ok = (\<lambda>f. True), cleanup_locks_ok = True,
       path_exists = (\<lambda>f. True), needrun = (\<lambda>j. True),
       relpath = (\<lambda>f start. drop (length start + 1) f),
       schedule = Inr True \<rparr>"

text \<open>The controller with the sub-workflow \<^verbatim>\<open>other\<close>, and the same in immediate-submit mode.\<close>

definition w_sub :: workflow where
  "w_sub =
     w_a\<lparr>subworkflows := [(''other'', \<lparr>sw_name = ''other'', sw_snakefile = ''/sub/Snakefile'',
                                        sw_workdir = ''/sub'', sw_configfile = None\<rparr>)]\<rparr>"

definition w_immediate :: workflow where
  "w_immediate = w_sub\<lparr>immediate_submit := True\<rparr>"

text \<open>
  Rule \<^verbatim>\<open>a\<close> with \<^verbatim>\<open>threads: 3.9\<close> finalized, ready for \<^verbatim>\<open>use rule a as b\<close>; and a modifier
  that skips the rule \<^verbatim>\<open>c\<close>, as the modifier of a module import that does not select it.
\<close>

definition w_defined :: workflow where
  "w_defined =
     (case define_rule plain_collab base_modifier w_parsing (Some ''a'') ri_threads_float of
        Inr w \<Rightarrow> w
      | Inl e \<Rightarrow> w_parsing)"

definition skipping_c :: modifier where
  "skipping_c = base_modifier\<lparr>skip_rule := (\<lambda>n. n = Some ''c'')\<rparr>"

section \<open>Proof tools\<close>

lemma and_then_simps [simp]:
  "and_then (Inr x) f = f x"
  "and_then (Inl e) f = Inl e"
  by (simp_all add: and_then_def)

lemma and_then_Inr_iff: "and_then m f = Inr y \<longleftrightarrow> (\<exists>x. m = Inr x \<and> f x = Inr y)"
  by (cases m) simp_all

lemma run_steps_invariant:
  assumes step: "\<And>f s s'. f \<in> set fs \<Longrightarrow> f s = Inr s' \<Longrightarrow> P s \<Longrightarrow> P s'"
    and run: "run_steps fs s = Inr s'"
    and init: "P s"
  shows "P s'"
  using assms
proof (induction fs arbitrary: s)
  case Nil
  then show ?case by simp
next
  case (Cons f fs)
  from Cons.prems(2) obtain s1 where f: "f s = Inr s1" and rest: "run_steps fs s1 = Inr s'"
    by (auto simp: and_then_Inr_iff)
  have "P s1" using Cons.prems(1) [of f s s1] f Cons.prems(3) by simp
  with Cons.IH [of s1] rest Cons.prems(1) show ?case by auto
qed

lemma map_of_dict_update_other:
  "k \<notin> fst ` set e \<Longrightarrow> map_of (dict_update d e) k = map_of d k"
  unfolding dict_update_def
  by (induction e arbitrary: d) (auto simp: update_conv')

lemma truthy_cache_guard: "truthy (cache_guard v)"
  by (simp add: cache_guard_def py_or_def)

lemmas step_defs =
  step_apply_modifier_def step_wildcard_constraints_def step_name_def step_input_def
  step_output_def step_params_def step_default_resources_def step_threads_def step_shadow_def
  step_resources_def step_overwrite_resources_def step_priority_def step_retries_def
  step_version_def step_log_def step_message_def step_benchmark_def step_group_def
  step_wrapper_def step_env_modules_def step_conda_env_def step_container_def step_assign_def
  step_handover_def step_cache_def step_benchmark_cache_def step_default_target_def
  step_localrule_def step_publish_def

lemmas phase_defs =
  decorate_steps_def decorate_directives_def decorate_io_def decorate_resources_def
  decorate_environment_def decorate_policy_def

lemmas example_defs =
  define_rule_def rule_def add_rule_def is_rule_def get_rule_def base_modifier_def
  w_parsing_def w_caching_def new_Workflow_def new_Rule_def new_RuleInfo_def plain_collab_def
  set_is_checkpoint_def decorate_def invalid_rule_def py_or_def py_eq_def log_warning_def
  get_cache_mode_def is_True_def is_False_def cache_guard_def with_rule_a_def Let_def

lemma decorate_registered:
  "map_of (rules w) name = Some r \<Longrightarrow>
   decorate c m w (Registered name orig_name checkpoint) i =
     and_then (decorate_steps c m orig_name checkpoint \<lparr>flow = w, rl = r, ri = i, nm = name\<rparr>)
       (\<lambda>s. Inr (flow s))"
  by (simp add: decorate_def)

lemma decorate_steps_after_directives:
  "decorate_directives c m s0 = Inr s \<Longrightarrow>
   decorate_steps c m orig_name checkpoint s0
     = and_then (decorate_policy s) (step_publish orig_name checkpoint)"
  by (simp add: decorate_steps_def and_then_def split: sum.splits)

lemma policy_no_cache_entry:
  assumes "decorate_policy s = Inr s1" and "ri_benchmark (ri s) \<noteq> None"
  shows "\<not> truthy (get_cache_mode (flow s1) (rl s1)) \<and> ri_benchmark (ri s1) \<noteq> None"
proof -
  from assms(1) obtain a b where a: "step_cache s = Inr a" and b: "step_benchmark_cache a = Inr b"
    and rest: "run_steps [step_default_target, step_localrule] b = Inr s1"
    by (auto simp: decorate_policy_def and_then_Inr_iff)
  have ra: "ri a = ri s" using a by (auto simp: step_cache_def Let_def split: if_splits)
  from b have bb: "b = a" and ok: "ri_benchmark (ri a) = None \<or> \<not> truthy (get_cache_mode (flow a) (rl a))"
    by (auto simp: step_benchmark_cache_def split: if_splits)
  with ra assms(2) have P: "\<not> truthy (get_cache_mode (flow b) (rl b)) \<and> ri_benchmark (ri b) \<noteq> None"
    by auto
  show ?thesis
  proof (rule run_steps_invariant [where P = "\<lambda>t. \<not> truthy (get_cache_mode (flow t) (rl t)) \<and> ri_benchmark (ri t) \<noteq> None", OF _ rest P])
    fix f t t'
    assume "f \<in> set [step_default_target, step_localrule]" "f t = Inr t'"
      "\<not> truthy (get_cache_mode (flow t) (rl t)) \<and> ri_benchmark (ri t) \<noteq> None"
    then show "\<not> truthy (get_cache_mode (flow t') (rl t')) \<and> ri_benchmark (ri t') \<noteq> None"
      by (auto simp: step_default_target_def step_localrule_def get_cache_mode_def split: if_splits)
  qed
qed

lemma publish_no_cache_entry:
  assumes "step_publish orig_name checkpoint s = Inr s1"
  shows "get_cache_mode (flow s1) (rl s1) = get_cache_mode (flow s) (rl s)"
  using assms by (auto simp: step_publish_def Let_def get_cache_mode_def split: if_splits)

lemma decorate_steps_after_io:
  "decorate_io c m s0 = Inr s \<Longrightarrow>
   decorate_steps c m orig_name checkpoint s0
     = run_steps [decorate_resources, decorate_environment c, step_handover, decorate_policy,
                  step_publish orig_name checkpoint] s"
  by (simp add: decorate_steps_def decorate_directives_def and_then_def split: sum.splits)

lemma threads_invalid_fails:
  assumes "ri_threads (ri s) \<noteq> PNone" "\<not> is_int (ri_threads (ri s))"
    "\<not> is_float (ri_threads (ri s))" "\<not> callable (ri_threads (ri s))"
  shows "step_threads s = Inl (RuleException ThreadsType)"
  using assms by (simp add: step_threads_def Let_def)

lemma threads_float_sets_cores:
  assumes "ri_threads (ri s) = PFloat (Finite q)" "overwrite_threads (flow s) (nm s) = None"
  shows "\<exists>t. step_threads s = Inr t \<and> cores_kept (PInt (trunc q)) s t"
  using assms by (simp add: step_threads_def Let_def cores_kept_def update_conv')

lemma resources_steps_keep_cores:
  assumes no: "no_cores_override s"
    and f: "f \<in> set [step_shadow, step_resources, step_overwrite_resources, step_priority, step_retries]"
    and run: "f t = Inr t'" and P: "cores_kept v s t"
  shows "cores_kept v s t'"
  using f run P no
  by (auto simp: cores_kept_def no_cores_override_def step_shadow_def step_resources_def
      step_overwrite_resources_def step_priority_def step_retries_def Let_def log_warning_def
      map_of_dict_update_other
      split: if_splits option.splits prod.splits)

lemma environment_steps_keep_cores:
  assumes f: "f \<in> set [step_version, step_log c, step_message, step_benchmark, step_group,
                step_wrapper c, step_env_modules, step_conda_env, step_container, step_assign c]"
    and run: "f t = Inr t'" and P: "cores_kept v s t"
  shows "cores_kept v s t'"
  using f run P
  by (auto simp: cores_kept_def step_version_def step_log_def step_message_def step_benchmark_def
      step_group_def step_wrapper_def step_env_modules_def step_conda_env_def step_container_def
      step_assign_def Let_def and_then_Inr_iff
      split: if_splits option.splits)

lemma policy_steps_keep_cores:
  assumes f: "f \<in> set [step_cache, step_benchmark_cache, step_default_target, step_localrule]"
    and run: "f t = Inr t'" and P: "cores_kept v s t"
  shows "cores_kept v s t'"
  using f run P
  by (auto simp: cores_kept_def step_cache_def step_benchmark_cache_def step_default_target_def
      step_localrule_def Let_def log_warning_def
      split: if_splits)

lemma handover_keeps_cores:
  assumes no: "no_cores_override s" and run: "step_handover t = Inr t'" and P: "cores_kept v s t"
  shows "cores_kept v s t'"
  using run P no
  by (auto simp: cores_kept_def no_cores_override_def step_handover_def Let_def split: if_splits)

lemma publish_keeps_cores:
  assumes run: "step_publish orig_name checkpoint t = Inr t'" and P: "cores_kept v s t"
  shows "cores_kept v s t' \<and> map_of (rules (flow t')) (nm t') = Some (rl t')"
  using run P
  by (auto simp: cores_kept_def step_publish_def Let_def update_conv' split: if_splits)

lemma float_threads_final:
  assumes thr: "ri_threads (ri s) = PFloat (Finite q)" "overwrite_threads (flow s) (nm s) = None"
    and no: "no_cores_override s"
    and run: "run_steps [decorate_resources, decorate_environment c, step_handover, decorate_policy,
                  step_publish orig_name checkpoint] s = Inr s'"
  shows "map_of (rules (flow s')) (nm s) = Some (rl s')
         \<and> map_of (r_resources (rl s')) ''_cores'' = Some (PInt (trunc q))"
proof -
  let ?v = "PInt (trunc q)"
  from run obtain s2 s3 s4 s5 where
    r: "decorate_resources s = Inr s2" and e: "decorate_environment c s2 = Inr s3"
    and h: "step_handover s3 = Inr s4" and p: "decorate_policy s4 = Inr s5"
    and pub: "step_publish orig_name checkpoint s5 = Inr s'"
    by (auto simp: and_then_Inr_iff)
  from threads_float_sets_cores [OF thr] obtain s1 where
    t: "step_threads s = Inr s1" and P1: "cores_kept ?v s s1" by blast
  from r t have r': "run_steps [step_shadow, step_resources, step_overwrite_resources, step_priority, step_retries] s1 = Inr s2"
    by (simp add: decorate_resources_def)
  have P2: "cores_kept ?v s s2"
    by (rule run_steps_invariant [where P = "cores_kept ?v s", OF _ r' P1])
       (rule resources_steps_keep_cores [OF no])
  have P3: "cores_kept ?v s s3"
    by (rule run_steps_invariant [where P = "cores_kept ?v s", OF _ e [unfolded decorate_environment_def] P2])
       (rule environment_steps_keep_cores)
  have P4: "cores_kept ?v s s4" by (rule handover_keeps_cores [OF no h P3])
  have P5: "cores_kept ?v s s5"
    by (rule run_steps_invariant [where P = "cores_kept ?v s", OF _ p [unfolded decorate_policy_def] P4])
       (rule policy_steps_keep_cores)
  from publish_keeps_cores [OF pub P5] show ?thesis unfolding cores_kept_def by metis
qed

lemma length_alist_update:
  "length (AList.update k v al) = (if k \<in> fst ` set al then length al else Suc (length al))"
  by (induction al) auto

lemma length_alist_map_entry: "length (AList.map_entry k f al) = length al"
  by (induction al) auto

lemma r_name_new_Rule: "r_name (new_Rule n l s) = n"
  by (simp add: new_Rule_def)

lemma rule_registers:
  assumes "\<not> allow_rule_overwrite m" and "\<And>n. \<not> skip_rule m n"
    and "rule m w name lineno snakefile checkpoint = (w1, Inr h)"
  shows "length (rules w1) = Suc (length (rules w))
       \<and> h = Registered (modify_rulename m (case name of None \<Rightarrow> str_nat (length (rules w) + 1) | Some n \<Rightarrow> n))
                         (case name of None \<Rightarrow> str_nat (length (rules w) + 1) | Some n \<Rightarrow> n) checkpoint"
  using assms
  by (auto simp: rule_def add_rule_def Let_def is_rule_def get_rule_def length_alist_update
      length_alist_map_entry r_name_new_Rule
      split: if_splits sum.splits option.splits prod.splits)

lemmas registry_defs =
  rule_def add_rule_def is_rule_def get_rule_def base_modifier_def new_Workflow_def
  new_Rule_def set_is_checkpoint_def Let_def

lemma str_nat_small:
  "str_nat (Suc 0) = ''1''" "str_nat (Suc (Suc 0)) = ''2''" "str_nat (Suc (Suc (Suc 0))) = ''3''"
  by (subst str_nat.simps, simp add: digit_char_def)+

lemma run_stages_append:
  "run_stages (fs @ gs) s =
     (case run_stages fs s of (s1, Some r) \<Rightarrow> (s1, Some r) | (s1, None) \<Rightarrow> run_stages gs s1)"
  by (induction fs arbitrary: s) (auto split: prod.splits option.splits)

lemma run_stages_invariant:
  assumes step: "\<And>f s s' r. f \<in> set fs \<Longrightarrow> f s = (s', r) \<Longrightarrow> P s \<Longrightarrow> P s'"
    and run: "run_stages fs s = (s', r)"
    and init: "P s"
  shows "P s'"
  using assms
proof (induction fs arbitrary: s)
  case Nil
  then show ?case by simp
next
  case (Cons f fs)
  obtain s1 r1 where f: "f s = (s1, r1)" by (cases "f s")
  have P1: "P s1" using Cons.prems(1) [of f s s1 r1] f Cons.prems(3) by simp
  show ?case
  proof (cases r1)
    case None
    with f Cons.prems(2) have "run_stages fs s1 = (s', r)" by simp
    with Cons.IH [of s1] Cons.prems(1) P1 show ?thesis by auto
  next
    case (Some x)
    with f Cons.prems(2) have "s' = s1" by simp
    with P1 show ?thesis by simp
  qed
qed

lemma run_stages_outcome:
  assumes step: "\<And>f s s' r. f \<in> set fs \<Longrightarrow> f s = (s', Some r) \<Longrightarrow> Q r"
    and run: "run_stages fs s = (s', Some r)"
  shows "Q r"
  using assms
proof (induction fs arbitrary: s)
  case Nil
  then show ?case by simp
next
  case (Cons f fs)
  obtain s1 r1 where f: "f s = (s1, r1)" by (cases "f s")
  show ?case
  proof (cases r1)
    case None
    with f Cons.prems(2) have "run_stages fs s1 = (s', Some r)" by simp
    with Cons.IH [of s1] Cons.prems(1) show ?thesis by auto
  next
    case (Some x)
    with f Cons.prems(2) have "r = x" "s' = s1" by simp_all
    with Cons.prems(1) [of f s s1 x] f Some show ?thesis by simp
  qed
qed

lemma run_subworkflows_frame:
  assumes "run_subworkflows a e sws s = (s', r)"
  shows "(quiet_scheduler s \<longrightarrow> quiet_scheduler s')
       \<and> immediate_submit (controller s') = immediate_submit (controller s)
       \<and> r \<noteq> Some (Returned True)
       \<and> (subsnakemake a \<noteq> None \<longrightarrow> r = None \<or> r = Some (Returned False))"
  using assms
proof (induction sws arbitrary: s)
  case Nil
  then show ?case by simp
next
  case (Cons sw sws)
  show ?case
  proof (cases "sw_targets e sw (the_dag e) = []")
    case True
    with Cons.prems have "run_subworkflows a e sws (say (Info ''Subworkflow: Nothing to be done'') (say (Debug ''Files requested from subworkflow'') s)) = (s', r)"
      by (simp add: Let_def)
    from Cons.IH [OF this] show ?thesis by (simp add: say_def quiet_scheduler_def)
  next
    case False
    show ?thesis
    proof (cases "subsnakemake a")
      case None
      with False Cons.prems show ?thesis by (auto simp: Let_def say_def quiet_scheduler_def)
    next
      case (Some nested)
      obtain ok upd g where n: "nested sw (sw_targets e sw (the_dag e)) (globals (controller (say (Debug ''Files requested from subworkflow'') s))) = (ok, upd, g)"
        by (metis prod_cases3)
      show ?thesis
      proof (cases ok)
        case False
        with \<open>sw_targets e sw (the_dag e) \<noteq> []\<close> Some n Cons.prems show ?thesis
          by (auto simp: Let_def say_def emit_def quiet_scheduler_def)
      next
        case True
        with \<open>sw_targets e sw (the_dag e) \<noteq> []\<close> Some n Cons.prems
        obtain s3 where s3: "run_subworkflows a e sws s3 = (s', r)"
          and t: "trace s3 = trace s @ [Subsnakemake (sw_name sw) (sw_targets e sw (the_dag e))]"
          and i: "immediate_submit (controller s3) = immediate_submit (controller s)"
          by (auto simp: Let_def say_def emit_def)
        from Cons.IH [OF s3] t i Some show ?thesis by (auto simp: quiet_scheduler_def)
      qed
    qed
  qed
qed

lemmas stage_defs =
  check_localrules_def stage_wait_for_files_def stage_build_dag_def stage_cleanup_metadata_def
  stage_unlock_def stage_dag_init_def stage_cleanup_shadow_def stage_containerize_def
  stage_postprocess_def stage_nodeps_def stage_immediate_submit_def stage_updated_files_def
  stage_inspect_def stage_provision_def

lemma stage_subworkflows_frame:
  assumes "stage_subworkflows a e s = (s', r)"
  shows "(quiet_scheduler s \<longrightarrow> quiet_scheduler s')
       \<and> immediate_submit (controller s') = immediate_submit (controller s)
       \<and> r \<noteq> Some (Returned True)
       \<and> (subsnakemake a \<noteq> None \<longrightarrow> r = None \<or> r = Some (Returned False))"
proof (cases "subworkflows (controller s) \<noteq> [] \<and> execute_subworkflows (controller s)
         \<and> \<not> printdag a \<and> \<not> printrulegraph a \<and> \<not> printfilegraph a")
  case False
  with assms show ?thesis by (auto simp: stage_subworkflows_def Let_def)
next
  case True
  obtain s1 r1 where run: "run_subworkflows a e (map snd (subworkflows (controller s))) s = (s1, r1)"
    by (cases "run_subworkflows a e (map snd (subworkflows (controller s))) s")
  from run_subworkflows_frame [OF run] True assms run show ?thesis
    by (cases r1) (auto simp: stage_subworkflows_def Let_def say_def quiet_scheduler_def)
qed

lemma preparation_unsubmitted:
  assumes "f \<in> set (preparation a e)" "f s = (s', r)" "unsubmitted b s"
  shows "unsubmitted b s'"
proof (cases "f = stage_subworkflows a e")
  case True
  with assms stage_subworkflows_frame [of a e s s' r] show ?thesis by (simp add: unsubmitted_def)
next
  case False
  with assms show ?thesis
    by (auto simp: preparation_def unsubmitted_def quiet_scheduler_def stage_defs Let_def
        emit_def say_def split: if_splits option.splits)
qed

lemma preparation_success:
  assumes "f \<in> set (preparation a e)" "f s = (s', Some r)"
  shows "r = Returned True \<longrightarrow> cleanup_metadata a \<noteq> [] \<or> unlock a \<or> cleanup_shadow a \<or> containerize a"
proof (cases "f = stage_subworkflows a e")
  case True
  with assms stage_subworkflows_frame [of a e s s' "Some r"] show ?thesis by simp
next
  case False
  with assms show ?thesis
    by (auto simp: preparation_def stage_defs Let_def split: if_splits option.splits)
qed

lemma preparation_failure:
  assumes flags: "cleanup_metadata a = []" "\<not> unlock a" "\<not> cleanup_shadow a" "\<not> containerize a"
    and ext: "dag_init_error e = None" "lock_error e = None" "subsnakemake a \<noteq> None"
    and f: "f \<in> set (preparation a e)" "f s = (s', Some r)"
  shows "r = Returned False"
proof (cases "f = stage_subworkflows a e")
  case True
  with f ext stage_subworkflows_frame [of a e s s' "Some r"] show ?thesis by simp
next
  case False
  with f flags ext show ?thesis
    by (auto simp: preparation_def stage_defs Let_def split: if_splits option.splits)
qed

lemma immediate_submit_stops:
  assumes "immediate_submit (controller s)" "checkpoint_jobs (the_dag e) \<noteq> []"
  shows "\<exists>s'. run_stages [stage_immediate_submit e, stage_updated_files e, stage_inspect a, stage_provision a] s
              = (s', Some (Returned False)) \<and> trace s' = trace s"
  using assms by (simp add: stage_immediate_submit_def say_def)

lemmas run_example_defs =
  execute_def before_scheduler_def preparation_def start_def stage_defs stage_subworkflows_def
  stage_scheduler_def sw_targets_def emit_def say_def default_args_def env_ok_def
  job_a_def job_b_def w_sub_def w_immediate_def w_a_def new_Workflow_def new_Rule_def
  nested_run_def is_rule_def inspections_def Let_def

lemma clone_of_refl: "clone_of j j"
  by (auto simp: clone_of_def split: pyval.splits sum.splits)

lemma directive_steps_clone:
  assumes f: "f \<in> set [step_wildcard_constraints c, step_name, step_input c, step_output c,
                step_params c, step_default_resources, step_threads, step_shadow, step_resources,
                step_overwrite_resources, step_priority, step_retries, step_version, step_log c,
                step_message, step_benchmark, step_group, step_wrapper c, step_env_modules,
                step_conda_env, step_container, step_assign c, step_handover, step_cache,
                step_benchmark_cache, step_default_target, step_localrule]"
    and run: "f t = Inr t'" and P: "clone_of (ri t) j"
  shows "clone_of (ri t') j"
proof -
  have other: "ri t' = ri t" if "f \<noteq> step_threads" "f \<noteq> step_conda_env"
    using f run that
    by (auto simp: step_defs Let_def and_then_Inr_iff split: if_splits option.splits prod.splits)
  show ?thesis
  proof (cases "f = step_threads")
    case True
    with run P show ?thesis
      by (auto simp: step_threads_def Let_def clone_of_def and_then_Inr_iff
          split: if_splits option.splits pyval.splits sum.splits pyfloat.splits)
  next
    case False
    show ?thesis
    proof (cases "f = step_conda_env")
      case True
      with run P show ?thesis
        by (auto simp: step_conda_env_def Let_def clone_of_def
            split: if_splits pyval.splits sum.splits)
    next
      case F2: False
      from other [OF False F2] P show ?thesis by simp
    qed
  qed
qed

section \<open>Properties of the registry\<close>

text \<open>
  C6. For every registry state and every rule name already present in it, registering a
  rule under that name without overwrite permission fails with the duplicate-rule error
  (\<^verbatim>\<open>CreateRuleException\<close>) and leaves the controller unchanged. With overwrite permission
  the registration succeeds and the registry holds, at the same position, the Rule just
  constructed from the arguments of the call alone: nothing of the Rule previously stored
  under the name is in it. All other entries and the rule count are as before.
\<close>

theorem add_rule_duplicate:
  assumes "is_rule w name"
  shows "add_rule m w name lineno snakefile checkpoint False = (w, Inl (CreateRuleException name))
       \<and> (\<exists>w'. add_rule m w name lineno snakefile checkpoint True = (w', Inr name)
            \<and> map_of (rules w') name = Some (new_Rule name lineno snakefile)
            \<and> map fst (rules w') = map fst (rules w)
            \<and> (\<forall>n. n \<noteq> name \<longrightarrow> map_of (rules w') n = map_of (rules w) n)
            \<and> rule_count w' = rule_count w)"
  using assms
  by (simp add: add_rule_def Let_def is_rule_def new_Rule_def update_conv' AList.update_keys)

theorem add_rule_duplicate_witness:
  "is_rule w_a ''a''
   \<and> add_rule base_modifier w_a ''a'' (PInt 5) PNone False False = (w_a, Inl (CreateRuleException ''a''))
   \<and> (\<exists>w'. add_rule base_modifier w_a ''a'' (PInt 5) PNone False True = (w', Inr ''a'')
         \<and> map_of (rules w') ''a'' = Some (new_Rule ''a'' (PInt 5) PNone))"
proof -
  have h: "is_rule w_a ''a''" by (simp add: is_rule_def w_a_def)
  from add_rule_duplicate [OF h, of base_modifier "PInt 5" PNone False] h
  show ?thesis by blast
qed

section \<open>Properties of unnamed rules\<close>

text \<open>
  C2, as the code has it. Take a run of registrations, starting in any registry, under a
  modifier that skips no rule and does not permit overwriting (as the controller's first
  modifier), and let every registration succeed. Then each registration adds one entry,
  and a registration without a name is given the decimal numeral of the registry size
  plus one (passed through the modifier's renaming): the number counts the rules
  registered before it, named ones included. From an empty registry the unnamed rules are
  \<^verbatim>\<open>"1"\<close>, \<^verbatim>\<open>"2"\<close>, ... only when no named rule precedes them.
\<close>

theorem unnamed_rule_names:
  assumes "\<not> allow_rule_overwrite m" and "\<And>n. \<not> skip_rule m n"
    and "register_all m w names = Inr (hs, w')"
  shows "length hs = length names
       \<and> length (rules w') = length (rules w) + length names
       \<and> (\<forall>i < length names. names ! i = None \<longrightarrow>
             hs ! i = Some (modify_rulename m (str_nat (length (rules w) + i + 1))))"
  using assms(3)
proof (induction names arbitrary: w hs)
  case Nil
  then show ?case by simp
next
  case (Cons name names)
  from Cons.prems obtain w1 h hs1 where
    r: "rule m w name PNone PNone False = (w1, Inr h)"
    and rest: "register_all m w1 names = Inr (hs1, w')"
    and hs: "hs = handle_name h # hs1"
    by (auto split: prod.splits sum.splits)
  from rule_registers [OF assms(1) assms(2) r]
  have len: "length (rules w1) = Suc (length (rules w))"
    and h: "h = Registered (modify_rulename m (case name of None \<Rightarrow> str_nat (length (rules w) + 1) | Some n \<Rightarrow> n))
                         (case name of None \<Rightarrow> str_nat (length (rules w) + 1) | Some n \<Rightarrow> n) False"
    by simp_all
  from Cons.IH [OF rest] have IH: "length hs1 = length names"
    "length (rules w') = length (rules w1) + length names"
    "\<forall>i < length names. names ! i = None \<longrightarrow>
             hs1 ! i = Some (modify_rulename m (str_nat (length (rules w1) + i + 1)))"
    by simp_all
  have "hs ! i = Some (modify_rulename m (str_nat (length (rules w) + i + 1)))"
    if "i < length (name # names)" "(name # names) ! i = None" for i
  proof (cases i)
    case 0
    with that hs h show ?thesis by simp
  next
    case (Suc j)
    with that IH(3) len hs show ?thesis by simp
  qed
  with IH len hs show ?case by simp
qed

theorem unnamed_rule_names_witness:
  "\<not> allow_rule_overwrite base_modifier \<and> (\<forall>n. \<not> skip_rule base_modifier n)
   \<and> (\<exists>hs w'. register_all base_modifier (new_Workflow None []) [None, Some ''a'', None] = Inr (hs, w')
         \<and> hs ! 0 = Some ''1'' \<and> hs ! 2 = Some ''3'')"
proof -
  have a: "\<not> allow_rule_overwrite base_modifier" "\<And>n. \<not> skip_rule base_modifier n"
    by (simp_all add: base_modifier_def)
  have "\<exists>hs w'. register_all base_modifier (new_Workflow None []) [None, Some ''a'', None] = Inr (hs, w')"
    by (simp add: registry_defs str_nat_small)
  then obtain hs w' where r: "register_all base_modifier (new_Workflow None []) [None, Some ''a'', None] = Inr (hs, w')"
    by blast
  have e: "rules (new_Workflow None []) = []" by (simp add: new_Workflow_def)
  have m: "modify_rulename base_modifier n = n" for n by (simp add: base_modifier_def)
  from unnamed_rule_names [OF a r]
  have "hs ! 0 = Some (str_nat 1)" "hs ! 2 = Some (str_nat 3)"
    by (simp_all add: e m)
  then have "hs ! 0 = Some ''1''" "hs ! 2 = Some ''3''"
    by (simp_all add: str_nat_small eval_nat_numeral)
  with r a show ?thesis by blast
qed

text \<open>
  The claim as stated fails: after the named rule \<^verbatim>\<open>a\<close>, the first unnamed rule is named
  \<^verbatim>\<open>"2"\<close>, not \<^verbatim>\<open>"1"\<close>.
\<close>

theorem unnamed_rule_names_counterexample:
  "\<exists>w'. register_all base_modifier (new_Workflow None []) [Some ''a'', None]
          = Inr ([Some ''a'', Some ''2''], w')"
  by (simp add: registry_defs str_nat_small)

section \<open>Properties of environment-variable registration\<close>

text \<open>
  C10. Registering environment variables is atomic. If a requested name does not match
  the identifier pattern, or strict checking is enabled and a requested name is not
  defined in the process environment, \<open>register_envvars\<close> raises a \<^verbatim>\<open>WorkflowError\<close> and
  the controller, with its set of registered variables, is unchanged. Otherwise it
  succeeds and the set of registered variables is the union of the old set and the
  requested names.
\<close>

theorem register_envvars_atomic:
  "(((\<exists>v\<in>set vars. \<not> match_envvar v) \<or> (check_envvars w \<and> (\<exists>v\<in>set vars. v \<notin> environ)))
      \<longrightarrow> (\<exists>reason. register_envvars environ w vars = (w, Inl (WorkflowError reason))))
   \<and> (\<not> ((\<exists>v\<in>set vars. \<not> match_envvar v) \<or> (check_envvars w \<and> (\<exists>v\<in>set vars. v \<notin> environ)))
      \<longrightarrow> register_envvars environ w vars = (w\<lparr>envvars := envvars w \<union> set vars\<rparr>, Inr ()))"
  by (auto simp: register_envvars_def Let_def filter_empty_conv)

theorem register_envvars_atomic_witness:
  "(\<exists>reason. register_envvars {''HOME''} (new_Workflow None []) [''HOME'', ''NO PE'']
               = (new_Workflow None [], Inl (WorkflowError reason)))
   \<and> (\<exists>reason. register_envvars {''HOME''} (new_Workflow None []) [''HOME'', ''USER'']
               = (new_Workflow None [], Inl (WorkflowError reason)))
   \<and> envvars (fst (register_envvars {''HOME''} ((new_Workflow None [])\<lparr>envvars := {''PATH''}\<rparr>) [''HOME'']))
       = {''PATH'', ''HOME''}"
proof -
  have a: "\<not> match_envvar ''NO PE''" by (simp add: match_envvar_def is_word_char_def)
  have b: "check_envvars (new_Workflow None [])" by (simp add: new_Workflow_def)
  have c: "match_envvar ''HOME''" by (simp add: match_envvar_def is_word_char_def)
  from register_envvars_atomic [of "[''HOME'', ''NO PE'']" "new_Workflow None []" "{''HOME''}"] a
  have 1: "\<exists>reason. register_envvars {''HOME''} (new_Workflow None []) [''HOME'', ''NO PE'']
             = (new_Workflow None [], Inl (WorkflowError reason))"
    by simp
  from register_envvars_atomic [of "[''HOME'', ''USER'']" "new_Workflow None []" "{''HOME''}"] b
  have 2: "\<exists>reason. register_envvars {''HOME''} (new_Workflow None []) [''HOME'', ''USER'']
             = (new_Workflow None [], Inl (WorkflowError reason))"
    by simp
  from register_envvars_atomic [of "[''HOME'']" "(new_Workflow None [])\<lparr>envvars := {''PATH''}\<rparr>" "{''HOME''}"] c
  have 3: "envvars (fst (register_envvars {''HOME''} ((new_Workflow None [])\<lparr>envvars := {''PATH''}\<rparr>) [''HOME'']))
             = {''PATH'', ''HOME''}"
    by auto
  from 1 2 3 show ?thesis by blast
qed

section \<open>Properties of the cache directive\<close>

text \<open>
  C9. The guard \<^verbatim>\<open>ruleinfo.cache is True or "omit-software" or "all"\<close> is true for every
  value of the directive, so the branch raising "Invalid value for cache directive" is
  unreachable: neither the cache step nor the whole policy phase of \<open>decorate\<close> ever ends
  with that error. When caching is enabled, every true cache value of a rule that passes
  the output check, valid or not, is recorded in the per-rule cache map (\<^verbatim>\<open>True\<close> as
  \<^verbatim>\<open>"all"\<close>, anything else as it is).
\<close>

theorem cache_guard_always_true:
  "truthy (cache_guard v)
   \<and> step_cache s \<noteq> Inl (WorkflowError InvalidCacheValue)
   \<and> decorate_policy s \<noteq> Inl (WorkflowError InvalidCacheValue)
   \<and> (truthy (ri_cache (ri s)) \<and> enable_cache (flow s)
        \<and> \<not> (length (r_output (rl s)) > 1 \<and> \<not> is_multiext (r_output (rl s) ! 0))
      \<longrightarrow> step_cache s =
            Inr (s\<lparr>flow := (flow s)\<lparr>cache_rules := (cache_rules (flow s))
                   (r_name (rl s) \<mapsto> (if is_True (ri_cache (ri s)) then PStr ''all'' else ri_cache (ri s)))\<rparr>\<rparr>))"
proof -
  have g: "truthy (cache_guard v)" for v by (rule truthy_cache_guard)
  have 1: "step_cache s \<noteq> Inl (WorkflowError InvalidCacheValue)" for s
    by (simp add: step_cache_def Let_def g)
  have 2: "decorate_policy s \<noteq> Inl (WorkflowError InvalidCacheValue)"
  proof (cases "step_cache s")
    case (Inl e)
    with 1 [of s] show ?thesis by (auto simp: decorate_policy_def)
  next
    case (Inr s1)
    then show ?thesis
      by (auto simp: decorate_policy_def step_benchmark_cache_def step_default_target_def
          step_localrule_def)
  qed
  have 3: "truthy (ri_cache (ri s)) \<and> enable_cache (flow s)
        \<and> \<not> (length (r_output (rl s)) > 1 \<and> \<not> is_multiext (r_output (rl s) ! 0))
      \<longrightarrow> step_cache s =
            Inr (s\<lparr>flow := (flow s)\<lparr>cache_rules := (cache_rules (flow s))
                   (r_name (rl s) \<mapsto> (if is_True (ri_cache (ri s)) then PStr ''all'' else ri_cache (ri s)))\<rparr>\<rparr>)"
    by (simp add: step_cache_def Let_def g)
  from g 1 2 3 show ?thesis by blast
qed

theorem cache_guard_always_true_witness:
  "truthy (ri_cache (ri s_bogus_cache)) \<and> enable_cache (flow s_bogus_cache)
   \<and> (\<exists>s'. step_cache s_bogus_cache = Inr s' \<and> cache_rules (flow s') ''a'' = Some (PStr ''bogus''))"
proof -
  have h: "truthy (ri_cache (ri s_bogus_cache)) \<and> enable_cache (flow s_bogus_cache)
        \<and> \<not> (length (r_output (rl s_bogus_cache)) > 1 \<and> \<not> is_multiext (r_output (rl s_bogus_cache) ! 0))"
    by (simp add: s_bogus_cache_def ri_bogus_cache_def example_defs)
  have n: "r_name (rl s_bogus_cache) = ''a''" "\<not> is_True (ri_cache (ri s_bogus_cache))"
    "ri_cache (ri s_bogus_cache) = PStr ''bogus''"
    by (simp_all add: s_bogus_cache_def ri_bogus_cache_def example_defs)
  from cache_guard_always_true [of "PStr ''bogus''" s_bogus_cache] h n
  show ?thesis by simp
qed

text \<open>
  C1, as the code has it. Let the directives of a rule be accepted up to the cache check
  and let its cache directive be true. If the rule has more than one output and the first
  is not declared by \<^verbatim>\<open>multiext()\<close>, finalizing fails with \<^verbatim>\<open>WorkflowError\<close>, whether
  between-workflow caching is enabled or not. If the rule passes that check and caching is
  disabled, the cache step only logs the advisory warning and goes on.
\<close>

theorem cache_multiple_outputs:
  assumes reg: "map_of (rules w) name = Some r"
    and dir: "decorate_directives c m \<lparr>flow = w, rl = r, ri = i, nm = name\<rparr> = Inr s"
    and cache: "truthy (ri_cache (ri s))"
  shows "(length (r_output (rl s)) > 1 \<and> \<not> is_multiext (r_output (rl s) ! 0)
           \<longrightarrow> decorate c m w (Registered name orig_name checkpoint) i
                 = Inl (WorkflowError MultipleOutputCache))
       \<and> (\<not> (length (r_output (rl s)) > 1 \<and> \<not> is_multiext (r_output (rl s) ! 0))
            \<and> \<not> enable_cache (flow s)
           \<longrightarrow> step_cache s =
                 Inr (s\<lparr>flow := log_warning ''Workflow defines that rule is eligible for caching between workflows (use the --cache argument to enable this).'' (flow s)\<rparr>))"
  using dir cache
  by (auto simp: decorate_registered [OF reg] decorate_steps_def decorate_policy_def step_cache_def Let_def)

theorem cache_multiple_outputs_witness:
  "decorate plain_collab base_modifier (with_rule_a w_caching) (Registered ''a'' ''a'' False) ri_two_outputs
     = Inl (WorkflowError MultipleOutputCache)
   \<and> (\<exists>r s. map_of (rules (with_rule_a w_parsing)) ''a'' = Some r
        \<and> decorate_directives plain_collab base_modifier
             \<lparr>flow = with_rule_a w_parsing, rl = r, ri = ri_multiext, nm = ''a''\<rparr> = Inr s
        \<and> truthy (ri_cache (ri s)) \<and> length (r_output (rl s)) > 1 \<and> \<not> enable_cache (flow s)
        \<and> (\<exists>s'. step_cache s = Inr s' \<and> length (logged (flow s')) = 1))"
proof -
  have "\<exists>r s. map_of (rules (with_rule_a w_caching)) ''a'' = Some r
        \<and> decorate_directives plain_collab base_modifier
             \<lparr>flow = with_rule_a w_caching, rl = r, ri = ri_two_outputs, nm = ''a''\<rparr> = Inr s
        \<and> truthy (ri_cache (ri s)) \<and> length (r_output (rl s)) > 1 \<and> \<not> is_multiext (r_output (rl s) ! 0)"
    by (simp add: example_defs phase_defs step_defs ri_two_outputs_def)
  then obtain r s where reg: "map_of (rules (with_rule_a w_caching)) ''a'' = Some r"
    and dir: "decorate_directives plain_collab base_modifier
             \<lparr>flow = with_rule_a w_caching, rl = r, ri = ri_two_outputs, nm = ''a''\<rparr> = Inr s"
    and c: "truthy (ri_cache (ri s))"
    and l: "length (r_output (rl s)) > 1 \<and> \<not> is_multiext (r_output (rl s) ! 0)" by blast
  from cache_multiple_outputs [OF reg dir c, of "''a''" False] l
  have 1: "decorate plain_collab base_modifier (with_rule_a w_caching) (Registered ''a'' ''a'' False) ri_two_outputs
     = Inl (WorkflowError MultipleOutputCache)" by blast
  have "\<exists>r s. map_of (rules (with_rule_a w_parsing)) ''a'' = Some r
        \<and> decorate_directives plain_collab base_modifier
             \<lparr>flow = with_rule_a w_parsing, rl = r, ri = ri_multiext, nm = ''a''\<rparr> = Inr s
        \<and> truthy (ri_cache (ri s)) \<and> length (r_output (rl s)) > 1 \<and> is_multiext (r_output (rl s) ! 0)
        \<and> \<not> enable_cache (flow s) \<and> logged (flow s) = []"
    by (simp add: example_defs phase_defs step_defs ri_multiext_def)
  then obtain r2 s2 where reg2: "map_of (rules (with_rule_a w_parsing)) ''a'' = Some r2"
    and dir2: "decorate_directives plain_collab base_modifier
             \<lparr>flow = with_rule_a w_parsing, rl = r2, ri = ri_multiext, nm = ''a''\<rparr> = Inr s2"
    and c2: "truthy (ri_cache (ri s2))"
    and l2: "length (r_output (rl s2)) > 1" "is_multiext (r_output (rl s2) ! 0)" "\<not> enable_cache (flow s2)"
       "logged (flow s2) = []" by blast
  from cache_multiple_outputs [OF reg2 dir2 c2, of "''a''" False] l2
  have "\<exists>s'. step_cache s2 = Inr s' \<and> length (logged (flow s')) = 1"
    by (simp add: log_warning_def)
  with reg2 dir2 c2 l2 1 show ?thesis by blast
qed

text \<open>
  The claim as stated fails: with caching disabled, the rule with the two plain outputs
  \<^verbatim>\<open>x.txt\<close> and \<^verbatim>\<open>y.txt\<close> and \<^verbatim>\<open>cache: True\<close> is not finalized with a warning; it fails with the
  same \<^verbatim>\<open>WorkflowError\<close>.
\<close>

theorem cache_multiple_outputs_counterexample:
  "\<not> enable_cache w_parsing
   \<and> define_rule plain_collab base_modifier w_parsing (Some ''a'') ri_two_outputs
       = Inl (WorkflowError MultipleOutputCache)"
  by (simp add: example_defs phase_defs step_defs ri_two_outputs_def)

text \<open>
  C4, as the code has it. Let the directives of a rule with a benchmark directive be
  accepted up to the cache check. If between-workflow caching is enabled and the cache
  directive is true, or the cache map already has a true entry for the rule (it was named
  with \<^verbatim>\<open>--cache\<close>), finalizing fails with a \<^verbatim>\<open>WorkflowError\<close>: the one of the output check or
  the one of the benchmark check. Whenever the steps of \<open>decorate\<close> succeed on such a rule,
  the cache map has no true entry for it: no finalized Rule has both a benchmark spec and
  cache eligibility.
\<close>

theorem benchmark_cache:
  assumes reg: "map_of (rules w) name = Some r"
    and dir: "decorate_directives c m \<lparr>flow = w, rl = r, ri = i, nm = name\<rparr> = Inr s"
    and bench: "ri_benchmark (ri s) \<noteq> None"
  shows "((truthy (ri_cache (ri s)) \<and> enable_cache (flow s)) \<or> truthy (get_cache_mode (flow s) (rl s))
           \<longrightarrow> decorate c m w (Registered name orig_name checkpoint) i = Inl (WorkflowError MultipleOutputCache)
             \<or> decorate c m w (Registered name orig_name checkpoint) i = Inl (WorkflowError BenchmarkWithCache))
       \<and> (\<forall>s'. decorate_steps c m orig_name checkpoint \<lparr>flow = w, rl = r, ri = i, nm = name\<rparr> = Inr s'
             \<longrightarrow> \<not> truthy (get_cache_mode (flow s') (rl s')))"
proof -
  note unfold = decorate_registered [OF reg] decorate_steps_after_directives [OF dir]
  have 1: "(truthy (ri_cache (ri s)) \<and> enable_cache (flow s)) \<or> truthy (get_cache_mode (flow s) (rl s))
           \<longrightarrow> decorate c m w (Registered name orig_name checkpoint) i = Inl (WorkflowError MultipleOutputCache)
             \<or> decorate c m w (Registered name orig_name checkpoint) i = Inl (WorkflowError BenchmarkWithCache)"
    using bench
    by (auto simp: unfold decorate_policy_def step_cache_def step_benchmark_cache_def Let_def
        truthy_cache_guard get_cache_mode_def log_warning_def is_True_def)
  have 2: "\<not> truthy (get_cache_mode (flow s') (rl s'))"
    if "decorate_steps c m orig_name checkpoint \<lparr>flow = w, rl = r, ri = i, nm = name\<rparr> = Inr s'" for s'
  proof -
    from that obtain s1 where p: "decorate_policy s = Inr s1" and q: "step_publish orig_name checkpoint s1 = Inr s'"
      by (auto simp: unfold and_then_Inr_iff)
    from policy_no_cache_entry [OF p bench] publish_no_cache_entry [OF q] show ?thesis by simp
  qed
  from 1 2 show ?thesis by blast
qed

theorem benchmark_cache_witness:
  "\<exists>r s. map_of (rules (with_rule_a w_caching)) ''a'' = Some r
     \<and> decorate_directives plain_collab base_modifier
          \<lparr>flow = with_rule_a w_caching, rl = r, ri = ri_benchmarked, nm = ''a''\<rparr> = Inr s
     \<and> ri_benchmark (ri s) \<noteq> None \<and> truthy (ri_cache (ri s)) \<and> enable_cache (flow s)
     \<and> decorate plain_collab base_modifier (with_rule_a w_caching) (Registered ''a'' ''a'' False) ri_benchmarked
         = Inl (WorkflowError BenchmarkWithCache)
     \<and> (\<exists>s'. decorate_steps plain_collab base_modifier ''a'' False
                \<lparr>flow = with_rule_a w_parsing, rl = r, ri = ri_benchmarked, nm = ''a''\<rparr> = Inr s'
              \<and> \<not> truthy (get_cache_mode (flow s') (rl s')))"
proof -
  have "\<exists>r s. map_of (rules (with_rule_a w_caching)) ''a'' = Some r
        \<and> map_of (rules (with_rule_a w_parsing)) ''a'' = Some r
        \<and> decorate_directives plain_collab base_modifier
             \<lparr>flow = with_rule_a w_caching, rl = r, ri = ri_benchmarked, nm = ''a''\<rparr> = Inr s
        \<and> ri_benchmark (ri s) \<noteq> None \<and> truthy (ri_cache (ri s)) \<and> enable_cache (flow s)"
    by (simp add: example_defs phase_defs step_defs ri_benchmarked_def)
  then obtain r s where reg: "map_of (rules (with_rule_a w_caching)) ''a'' = Some r"
    and reg2: "map_of (rules (with_rule_a w_parsing)) ''a'' = Some r"
    and dir: "decorate_directives plain_collab base_modifier
             \<lparr>flow = with_rule_a w_caching, rl = r, ri = ri_benchmarked, nm = ''a''\<rparr> = Inr s"
    and b: "ri_benchmark (ri s) \<noteq> None" and c: "truthy (ri_cache (ri s))" "enable_cache (flow s)" by blast
  have ne: "decorate plain_collab base_modifier (with_rule_a w_caching) (Registered ''a'' ''a'' False) ri_benchmarked
         \<noteq> Inl (WorkflowError MultipleOutputCache)"
    by (simp add: example_defs phase_defs step_defs ri_benchmarked_def)
  from benchmark_cache [OF reg dir b, of "''a''" False] c ne
  have 1: "decorate plain_collab base_modifier (with_rule_a w_caching) (Registered ''a'' ''a'' False) ri_benchmarked
         = Inl (WorkflowError BenchmarkWithCache)" by blast
  have "\<exists>s2 s'. decorate_directives plain_collab base_modifier
             \<lparr>flow = with_rule_a w_parsing, rl = r, ri = ri_benchmarked, nm = ''a''\<rparr> = Inr s2
        \<and> ri_benchmark (ri s2) \<noteq> None
        \<and> decorate_steps plain_collab base_modifier ''a'' False
                \<lparr>flow = with_rule_a w_parsing, rl = r, ri = ri_benchmarked, nm = ''a''\<rparr> = Inr s'"
    using reg2 by (simp add: example_defs phase_defs step_defs ri_benchmarked_def)
  then obtain s2 s' where dir2: "decorate_directives plain_collab base_modifier
             \<lparr>flow = with_rule_a w_parsing, rl = r, ri = ri_benchmarked, nm = ''a''\<rparr> = Inr s2"
    and b2: "ri_benchmark (ri s2) \<noteq> None"
    and st: "decorate_steps plain_collab base_modifier ''a'' False
                \<lparr>flow = with_rule_a w_parsing, rl = r, ri = ri_benchmarked, nm = ''a''\<rparr> = Inr s'" by blast
  from benchmark_cache [OF reg2 dir2 b2, of "''a''" False] st
  have "\<not> truthy (get_cache_mode (flow s') (rl s'))" by blast
  with reg dir b c 1 st show ?thesis by blast
qed

text \<open>
  The claim as stated fails: with caching disabled, a rule with both a benchmark directive
  and \<^verbatim>\<open>cache: True\<close> is finalized without error.
\<close>

theorem benchmark_cache_counterexample:
  "\<not> enable_cache w_parsing \<and> ri_benchmark ri_benchmarked \<noteq> None \<and> truthy (ri_cache ri_benchmarked)
   \<and> (\<exists>w'. define_rule plain_collab base_modifier w_parsing (Some ''a'') ri_benchmarked = Inr w')"
  by (simp add: example_defs phase_defs step_defs ri_benchmarked_def)

section \<open>Properties of the threads directive\<close>

text \<open>
  C7. Let the inputs, outputs and parameters of a rule be accepted. If its threads
  directive is given (not \<^verbatim>\<open>None\<close>) and is neither an integer nor a float nor a callable,
  finalizing fails with \<^verbatim>\<open>RuleException\<close> (the spec's RuleDefinitionError). If it is a
  finite float \<open>q\<close> and nothing else sets the cores of the rule (no \<^verbatim>\<open>--set-threads\<close> entry
  for it, no \<^verbatim>\<open>_cores\<close> among its resources, no handover), then whenever finalizing
  succeeds the Rule in the registry has \<^verbatim>\<open>_cores\<close> equal to \<open>q\<close> truncated toward zero. The
  witness runs both on the controller: \<^verbatim>\<open>threads: 3.9\<close> gives \<^verbatim>\<open>_cores == 3\<close> and
  \<^verbatim>\<open>threads: "x"\<close> fails.
\<close>

theorem threads_directive:
  assumes reg: "map_of (rules w) name = Some r"
    and io: "decorate_io c m \<lparr>flow = w, rl = r, ri = i, nm = name\<rparr> = Inr s"
  shows "(ri_threads (ri s) \<noteq> PNone \<and> \<not> is_int (ri_threads (ri s))
            \<and> \<not> is_float (ri_threads (ri s)) \<and> \<not> callable (ri_threads (ri s))
          \<longrightarrow> decorate c m w (Registered name orig_name checkpoint) i = Inl (RuleException ThreadsType))
       \<and> (ri_threads (ri s) = PFloat (Finite q) \<and> overwrite_threads (flow s) (nm s) = None
            \<and> no_cores_override s
          \<longrightarrow> (\<forall>w'. decorate c m w (Registered name orig_name checkpoint) i = Inr w'
                 \<longrightarrow> (\<exists>r'. map_of (rules w') (nm s) = Some r'
                        \<and> map_of (r_resources r') ''_cores'' = Some (PInt (trunc q)))))"
proof -
  note unfold = decorate_registered [OF reg] decorate_steps_after_io [OF io]
  have 1: "decorate c m w (Registered name orig_name checkpoint) i = Inl (RuleException ThreadsType)"
    if "ri_threads (ri s) \<noteq> PNone \<and> \<not> is_int (ri_threads (ri s))
            \<and> \<not> is_float (ri_threads (ri s)) \<and> \<not> callable (ri_threads (ri s))"
    using threads_invalid_fails [of s] that by (simp add: unfold decorate_resources_def)
  have 2: "\<exists>r'. map_of (rules w') (nm s) = Some r'
                        \<and> map_of (r_resources r') ''_cores'' = Some (PInt (trunc q))"
    if a: "ri_threads (ri s) = PFloat (Finite q) \<and> overwrite_threads (flow s) (nm s) = None
            \<and> no_cores_override s"
      and b: "decorate c m w (Registered name orig_name checkpoint) i = Inr w'" for w'
  proof -
    from b obtain s' where run: "run_steps [decorate_resources, decorate_environment c, step_handover, decorate_policy,
                  step_publish orig_name checkpoint] s = Inr s'" and w': "w' = flow s'"
      by (auto simp: unfold and_then_Inr_iff)
    from a float_threads_final [OF _ _ _ run] w' show ?thesis by blast
  qed
  from 1 2 show ?thesis by blast
qed

theorem threads_directive_witness:
  "(\<exists>w'. decorate plain_collab base_modifier (with_rule_a w_parsing) (Registered ''a'' ''a'' False) ri_threads_float = Inr w'
       \<and> (\<exists>r'. map_of (rules w') ''a'' = Some r' \<and> map_of (r_resources r') ''_cores'' = Some (PInt 3)))
   \<and> decorate plain_collab base_modifier (with_rule_a w_parsing) (Registered ''a'' ''a'' False) ri_threads_str
       = Inl (RuleException ThreadsType)"
proof -
  let ?q = "8782019273372467 / 2251799813685248 :: rat"
  have t: "trunc ?q = 3" by (simp add: trunc_def floor_eq_iff)
  have "\<exists>r s. map_of (rules (with_rule_a w_parsing)) ''a'' = Some r
        \<and> decorate_io plain_collab base_modifier
             \<lparr>flow = with_rule_a w_parsing, rl = r, ri = ri_threads_float, nm = ''a''\<rparr> = Inr s
        \<and> ri_threads (ri s) = PFloat (Finite ?q) \<and> overwrite_threads (flow s) (nm s) = None
        \<and> no_cores_override s \<and> nm s = ''a''"
    by (simp add: example_defs phase_defs step_defs ri_threads_float_def no_cores_override_def)
  then obtain r s where reg: "map_of (rules (with_rule_a w_parsing)) ''a'' = Some r"
    and io: "decorate_io plain_collab base_modifier
             \<lparr>flow = with_rule_a w_parsing, rl = r, ri = ri_threads_float, nm = ''a''\<rparr> = Inr s"
    and h: "ri_threads (ri s) = PFloat (Finite ?q) \<and> overwrite_threads (flow s) (nm s) = None
        \<and> no_cores_override s" and n: "nm s = ''a''" by blast
  have ok: "\<exists>w'. decorate plain_collab base_modifier (with_rule_a w_parsing) (Registered ''a'' ''a'' False) ri_threads_float = Inr w'"
    by (simp add: example_defs phase_defs step_defs ri_threads_float_def)
  then obtain w' where w': "decorate plain_collab base_modifier (with_rule_a w_parsing) (Registered ''a'' ''a'' False) ri_threads_float = Inr w'" ..
  from threads_directive [OF reg io, of "''a''" False ?q] h w' n t
  have 1: "\<exists>r'. map_of (rules w') ''a'' = Some r' \<and> map_of (r_resources r') ''_cores'' = Some (PInt 3)"
    by auto
  have "\<exists>s. decorate_io plain_collab base_modifier
             \<lparr>flow = with_rule_a w_parsing, rl = r, ri = ri_threads_str, nm = ''a''\<rparr> = Inr s
        \<and> ri_threads (ri s) \<noteq> PNone \<and> \<not> is_int (ri_threads (ri s))
            \<and> \<not> is_float (ri_threads (ri s)) \<and> \<not> callable (ri_threads (ri s))"
    by (simp add: example_defs phase_defs step_defs ri_threads_str_def)
  then obtain s2 where io2: "decorate_io plain_collab base_modifier
             \<lparr>flow = with_rule_a w_parsing, rl = r, ri = ri_threads_str, nm = ''a''\<rparr> = Inr s2"
    and h2: "ri_threads (ri s2) \<noteq> PNone \<and> \<not> is_int (ri_threads (ri s2))
            \<and> \<not> is_float (ri_threads (ri s2)) \<and> \<not> callable (ri_threads (ri s2))" by blast
  from threads_directive [OF reg io2, of "''a''" False] h2
  have 2: "decorate plain_collab base_modifier (with_rule_a w_parsing) (Registered ''a'' ''a'' False) ri_threads_str
       = Inl (RuleException ThreadsType)" by blast
  from w' 1 2 show ?thesis by blast
qed

section \<open>Properties of the run\<close>

text \<open>
  C8, as the code has it. Take any run of a controller in immediate-submit mode whose DAG
  has at least one checkpoint job. Whatever else is requested, the scheduler is neither
  constructed nor run. The run returns success only if one of the maintenance actions
  that return before the check was requested (metadata cleanup, unlock, shadow cleanup,
  containerize). If none of them was requested and no collaborator raises, the run
  returns failure.
\<close>

theorem immediate_submit_checkpoints:
  assumes imm: "immediate_submit w" and cp: "checkpoint_jobs (the_dag e) \<noteq> []"
  shows "ConstructScheduler \<notin> set (trace (fst (execute a e w)))
       \<and> Schedule \<notin> set (trace (fst (execute a e w)))
       \<and> (snd (execute a e w) = Returned True
            \<longrightarrow> cleanup_metadata a \<noteq> [] \<or> unlock a \<or> cleanup_shadow a \<or> containerize a)
       \<and> (cleanup_metadata a = [] \<and> \<not> unlock a \<and> \<not> cleanup_shadow a \<and> \<not> containerize a
            \<and> dag_init_error e = None \<and> lock_error e = None \<and> subsnakemake a \<noteq> None
            \<longrightarrow> snd (execute a e w) = Returned False)"
proof -
  obtain s1 r1 where prep: "run_stages (preparation a e) (start a w) = (s1, r1)"
    by (cases "run_stages (preparation a e) (start a w)")
  have init: "unsubmitted True (start a w)"
    using imm by (simp add: unsubmitted_def quiet_scheduler_def start_def)
  have P1: "unsubmitted True s1"
    by (rule run_stages_invariant [where P = "unsubmitted True", OF _ prep init])
       (rule preparation_unsubmitted)
  show ?thesis
  proof (cases r1)
    case (Some r)
    with prep have ex: "execute a e w = (s1, r)"
      by (simp add: execute_def before_scheduler_def run_stages_append)
    have t: "r = Returned True \<longrightarrow> cleanup_metadata a \<noteq> [] \<or> unlock a \<or> cleanup_shadow a \<or> containerize a"
      by (rule run_stages_outcome [where Q = "\<lambda>r. r = Returned True \<longrightarrow> cleanup_metadata a \<noteq> [] \<or> unlock a \<or> cleanup_shadow a \<or> containerize a",
            OF _ prep [unfolded Some]])
         (rule preparation_success)
    have f: "r = Returned False"
      if fl: "cleanup_metadata a = [] \<and> \<not> unlock a \<and> \<not> cleanup_shadow a \<and> \<not> containerize a
            \<and> dag_init_error e = None \<and> lock_error e = None \<and> subsnakemake a \<noteq> None"
    proof (rule run_stages_outcome [where Q = "\<lambda>r. r = Returned False", OF _ prep [unfolded Some]])
      fix f s s' r
      assume "f \<in> set (preparation a e)" "f s = (s', Some r)"
      with fl show "r = Returned False"
        using preparation_failure [of a e f s s' r] by blast
    qed
    from ex P1 t f show ?thesis by (auto simp: unsubmitted_def quiet_scheduler_def)
  next
    case None
    from P1 have "immediate_submit (controller s1)" by (simp add: unsubmitted_def)
    from immediate_submit_stops [OF this cp, of a] obtain s2 where
      "run_stages [stage_immediate_submit e, stage_updated_files e, stage_inspect a, stage_provision a] s1
              = (s2, Some (Returned False))" and t: "trace s2 = trace s1" by blast
    with prep None have ex: "execute a e w = (s2, Returned False)"
      by (simp add: execute_def before_scheduler_def run_stages_append)
    from ex P1 t show ?thesis by (simp add: unsubmitted_def quiet_scheduler_def)
  qed
qed

theorem immediate_submit_checkpoints_witness:
  "immediate_submit w_immediate \<and> checkpoint_jobs (the_dag env_ok) \<noteq> []
   \<and> snd (execute default_args env_ok w_immediate) = Returned False
   \<and> ConstructScheduler \<notin> set (trace (fst (execute default_args env_ok w_immediate)))"
proof -
  have h: "immediate_submit w_immediate" "checkpoint_jobs (the_dag env_ok) \<noteq> []"
    by (simp_all add: w_immediate_def env_ok_def)
  have f: "cleanup_metadata default_args = [] \<and> \<not> unlock default_args \<and> \<not> cleanup_shadow default_args
     \<and> \<not> containerize default_args \<and> dag_init_error env_ok = None \<and> lock_error env_ok = None
     \<and> subsnakemake default_args \<noteq> None"
    by (simp add: default_args_def env_ok_def)
  from immediate_submit_checkpoints [OF h, of default_args] f h show ?thesis by blast
qed

text \<open>
  The claim as stated fails: in immediate-submit mode with a checkpoint job in the resolved
  job set, a run that requests shadow cleanup returns success.
\<close>

theorem immediate_submit_checkpoints_counterexample:
  "immediate_submit w_immediate \<and> checkpoint_jobs (the_dag env_ok) \<noteq> []
   \<and> snd (execute (default_args\<lparr>cleanup_shadow := True\<rparr>) env_ok w_immediate) = Returned True"
  by (simp add: run_example_defs)

text \<open>
  C3, as the code has it. When the sub-workflow stage of a run completes, every name that
  was bound in the definition namespace before it is bound to its former value again. The
  namespace afterwards is the one the nested runs left, overwritten with the former
  bindings: a name a nested run has created stays. (A value is restored as the same
  object; the model does not follow changes inside objects.)
\<close>

theorem subworkflow_globals:
  assumes "stage_subworkflows a e s = (s', None)"
  shows "(\<forall>k\<in>dom (globals (controller s)). globals (controller s') k = globals (controller s) k)
       \<and> (\<exists>g. globals (controller s') = g ++ globals (controller s))"
proof (cases "subworkflows (controller s) \<noteq> [] \<and> execute_subworkflows (controller s)
         \<and> \<not> printdag a \<and> \<not> printrulegraph a \<and> \<not> printfilegraph a")
  case False
  with assms have "s' = s" by (auto simp: stage_subworkflows_def Let_def)
  moreover have "globals (controller s) = Map.empty ++ globals (controller s)" by simp
  ultimately show ?thesis by blast
next
  case True
  obtain s1 r1 where run: "run_subworkflows a e (map snd (subworkflows (controller s))) s = (s1, r1)"
    by (cases "run_subworkflows a e (map snd (subworkflows (controller s))) s")
  with True assms have "globals (controller s') = globals (controller s1) ++ globals (controller s)"
    by (cases r1) (auto simp: stage_subworkflows_def Let_def say_def)
  then show ?thesis by (auto simp: map_add_dom_app_simps)
qed

theorem subworkflow_globals_witness:
  "\<exists>s'. stage_subworkflows default_args env_ok (start default_args w_sub) = (s', None)
     \<and> ''workflow'' \<in> dom (globals w_sub)
     \<and> globals (controller s') ''workflow'' = globals w_sub ''workflow''"
proof -
  have "\<exists>s'. stage_subworkflows default_args env_ok (start default_args w_sub) = (s', None)"
    by (simp add: run_example_defs)
  then obtain s' where r: "stage_subworkflows default_args env_ok (start default_args w_sub) = (s', None)" ..
  have d: "''workflow'' \<in> dom (globals w_sub)" "controller (start default_args w_sub) = w_sub"
    by (simp_all add: run_example_defs)
  from subworkflow_globals [OF r] d r show ?thesis by auto
qed

text \<open>
  The claim as stated fails: the nested run of the example binds the new name \<^verbatim>\<open>x\<close>, and
  after the whole run has succeeded \<^verbatim>\<open>x\<close> is still bound in the parent's namespace.
\<close>

theorem subworkflow_globals_counterexample:
  "\<exists>s. execute default_args env_ok w_sub = (s, Returned True)
     \<and> globals w_sub ''x'' = None \<and> globals (controller s) ''x'' = Some (PInt 1)"
  by (simp add: run_example_defs)

end
